theory Spec2Isabelle
  imports Complex_Main
begin

chapter \<open>The program\<close>

section \<open>Configuration\<close>

text \<open>
  The constants of \<^verbatim>\<open>CONFIG\<close> in \<^verbatim>\<open>script.js\<close>.
\<close>

definition TOTAL_QUESTIONS :: nat where
  "TOTAL_QUESTIONS = 10"

definition QUESTION_TIME_LIMIT :: int where
  "QUESTION_TIME_LIMIT = 10"

definition MIN_NUMBER :: int where
  "MIN_NUMBER = 1"

definition MAX_NUMBER :: int where
  "MAX_NUMBER = 26"

section \<open>Strings\<close>

text \<open>
  A JavaScript string is modelled as a \<^typ>\<open>string\<close> of ASCII characters. The white space that
  \<^verbatim>\<open>String.prototype.trim\<close> removes is, within ASCII, TAB, LF, VT, FF, CR and SPACE;
  \<^verbatim>\<open>toUpperCase\<close> maps \<^verbatim>\<open>a-z\<close> to \<^verbatim>\<open>A-Z\<close> and leaves every other ASCII
  character as it is. The values \<^verbatim>\<open>null\<close> and \<^verbatim>\<open>undefined\<close> are not strings; where the
  source tests \<^verbatim>\<open>!input\<close> on a string, the test is true exactly for the empty string.
\<close>

definition isWhiteSpace :: "char \<Rightarrow> bool" where
  "isWhiteSpace c \<longleftrightarrow> (of_char c :: nat) \<in> {9, 10, 11, 12, 13, 32}"

definition trim :: "string \<Rightarrow> string" where
  "trim s = rev (dropWhile isWhiteSpace (rev (dropWhile isWhiteSpace s)))"

definition isLower :: "char \<Rightarrow> bool" where
  "isLower c \<longleftrightarrow> 97 \<le> (of_char c :: nat) \<and> (of_char c :: nat) \<le> 122"

definition isUpper :: "char \<Rightarrow> bool" where
  "isUpper c \<longleftrightarrow> 65 \<le> (of_char c :: nat) \<and> (of_char c :: nat) \<le> 90"

definition isDigit :: "char \<Rightarrow> bool" where
  "isDigit c \<longleftrightarrow> 48 \<le> (of_char c :: nat) \<and> (of_char c :: nat) \<le> 57"

definition toUpperChar :: "char \<Rightarrow> char" where
  "toUpperChar c = (if isLower c then char_of ((of_char c :: nat) - 32) else c)"

definition toUpperCase :: "string \<Rightarrow> string" where
  "toUpperCase s = map toUpperChar s"

subsection \<open>Number to string, string to number\<close>

text \<open>
  \<^verbatim>\<open>Number.prototype.toString\<close> on an integer: the decimal digits without leading zeros,
  after a minus sign when the integer is negative.
\<close>

definition digitChar :: "nat \<Rightarrow> char" where
  "digitChar d = char_of (48 + d)"

definition digitVal :: "char \<Rightarrow> nat" where
  "digitVal c = (of_char c :: nat) - 48"

fun digits :: "nat \<Rightarrow> string" where
  "digits n = (if n < 10 then [digitChar n] else digits (n div 10) @ [digitChar (n mod 10)])"

declare digits.simps [simp del]

definition toString :: "int \<Rightarrow> string" where
  "toString n = (if n < 0 then CHR ''-'' # digits (nat (- n)) else digits (nat n))"

text \<open>
  \<^verbatim>\<open>parseInt(s, 10)\<close>: leading white space is skipped, one sign is accepted, and the
  longest run of decimal digits that follows is the value; \<^verbatim>\<open>NaN\<close>, the result when
  there is no digit, is \<^const>\<open>None\<close>. The source reads the value as a double; the model keeps
  it exact. The two differ only on digit runs beyond \<open>2\<^sup>5\<^sup>3\<close>, which
  \<^verbatim>\<open>isValidNumber\<close> rejects in either reading because they exceed
  \<^verbatim>\<open>MAX_NUMBER\<close>.
\<close>

definition digitsValue :: "string \<Rightarrow> nat" where
  "digitsValue ds = foldl (\<lambda>a c. 10 * a + digitVal c) 0 ds"

definition parseInt :: "string \<Rightarrow> int option" where
  "parseInt s =
     (let s1 = dropWhile isWhiteSpace s;
          neg = (case s1 of c # _ \<Rightarrow> c = CHR ''-'' | [] \<Rightarrow> False);
          s2 = (case s1 of c # r \<Rightarrow> (if c = CHR ''-'' \<or> c = CHR ''+'' then r else s1) | [] \<Rightarrow> s1);
          ds = takeWhile isDigit s2
      in if ds = [] then None
         else Some (if neg then - int (digitsValue ds) else int (digitsValue ds)))"

section \<open>QuestionGenerator\<close>

record question =
  id_q :: string
  type_q :: string
  prompt :: string
  correctAnswer :: string
  displayValue :: string

text \<open>A question as \<^verbatim>\<open>generateNumberToAlphabetQuestion\<close> builds it for the number 13.\<close>

definition sampleQuestion :: question where
  "sampleQuestion =
     \<lparr>id_q = ''q_1'', type_q = ''number-to-alphabet'', prompt = ''What letter is number 13?'',
      correctAnswer = ''M'', displayValue = ''13''\<rparr>"

definition normalizeAnswer :: "string \<Rightarrow> string" where
  "normalizeAnswer answer = toUpperCase (trim answer)"

definition validateAnswer :: "string \<Rightarrow> string \<Rightarrow> bool" where
  "validateAnswer userAnswer correctAnswer' =
     (if userAnswer = [] \<or> correctAnswer' = [] then False
      else normalizeAnswer userAnswer = normalizeAnswer correctAnswer')"

definition isValidLetter :: "string \<Rightarrow> bool" where
  "isValidLetter input =
     (if input = [] then False
      else (let normalized = toUpperCase (trim input)
            in length normalized = 1 \<and> (case normalized of [c] \<Rightarrow> isUpper c | _ \<Rightarrow> False)))"

definition isValidNumber :: "string \<Rightarrow> bool" where
  "isValidNumber input =
     (if input = [] then False
      else (let trimmed = trim input
            in case parseInt trimmed of
                 None \<Rightarrow> False
               | Some number \<Rightarrow>
                   toString number = trimmed \<and> number \<ge> MIN_NUMBER \<and> number \<le> MAX_NUMBER))"

record validation =
  isValid :: bool
  errorMessage :: "string option"

definition validateInput :: "string \<Rightarrow> string \<Rightarrow> validation" where
  "validateInput input expectedType =
     (if input = [] \<or> trim input = [] then
        \<lparr>isValid = False, errorMessage = Some ''Please enter an answer''\<rparr>
      else if expectedType = ''letter'' then
        (if \<not> isValidLetter input then
           \<lparr>isValid = False, errorMessage = Some ''Please enter a single letter (A-Z)''\<rparr>
         else \<lparr>isValid = True, errorMessage = None\<rparr>)
      else if expectedType = ''number'' then
        (if \<not> isValidNumber input then
           \<lparr>isValid = False, errorMessage = Some ''Please enter a number between 1 and 26''\<rparr>
         else \<lparr>isValid = True, errorMessage = None\<rparr>)
      else \<lparr>isValid = True, errorMessage = None\<rparr>)"

section \<open>Numbers\<close>

text \<open>
  A JavaScript number is an IEEE 754 double. Lengths, counts and seconds are small integers,
  which doubles hold exactly, and are modelled as \<^typ>\<open>nat\<close> and \<^typ>\<open>int\<close>. Only the
  percentage of \<^verbatim>\<open>getScore\<close> leaves the integers: it divides two counts and multiplies
  the quotient by 100, and each of the two operations rounds its exact result to the nearest
  double, ties to the even mantissa. A non-negative finite double is modelled as a pair
  \<open>(m, e)\<close> that stands for \<open>m \<times> 2\<^sup>e\<close>, with a mantissa of at most 53 bits.
  Quotients of array lengths and their products with 100 lie far inside the range of normal
  doubles, so that overflow, subnormal numbers, infinities and \<^verbatim>\<open>NaN\<close> do not arise and
  are not modelled.
\<close>

type_synonym double = "int \<times> int"

function bitlen :: "int \<Rightarrow> int" where
  "bitlen n = (if n \<le> 0 then 0 else 1 + bitlen (n div 2))"
  by pat_completeness auto
termination
  by (relation "measure nat") auto

declare bitlen.simps [simp del]

text \<open>The integer nearest to \<open>p / q\<close>, the even one of two that are equally near.\<close>

definition roundTiesToEven :: "int \<Rightarrow> int \<Rightarrow> int" where
  "roundTiesToEven p q =
     (let d = p div q; r = p mod q
      in if 2 * r < q then d else if q < 2 * r then d + 1 else if even d then d else d + 1)"

text \<open>
  The double nearest to \<open>(p / q) \<times> 2\<^sup>e\<close>, for \<open>p \<ge> 0\<close> and \<open>q > 0\<close>: the quotient is
  scaled by the power of two \<open>2\<^sup>k\<close> that brings it into \<open>[2\<^sup>5\<^sup>2, 2\<^sup>5\<^sup>3)\<close> and
  rounded to an integer there.
\<close>

definition nearestDouble :: "int \<Rightarrow> int \<Rightarrow> int \<Rightarrow> double" where
  "nearestDouble p q e =
     (if p = 0 then (0, 0)
      else (let k0 = bitlen q + 53 - bitlen p;
                p0 = (if 0 \<le> k0 then p * 2 ^ nat k0 else p);
                q0 = (if 0 \<le> k0 then q else q * 2 ^ nat (- k0));
                k = (if q0 * 2 ^ 53 \<le> p0 then k0 - 1 else k0);
                p1 = (if 0 \<le> k then p * 2 ^ nat k else p);
                q1 = (if 0 \<le> k then q else q * 2 ^ nat (- k))
            in (roundTiesToEven p1 q1, e - k)))"

definition fromNat :: "nat \<Rightarrow> double" where
  "fromNat n = (int n, 0)"

definition fdiv :: "double \<Rightarrow> double \<Rightarrow> double" where
  "fdiv x y = nearestDouble (fst x) (fst y) (snd x - snd y)"

definition fmul :: "double \<Rightarrow> double \<Rightarrow> double" where
  "fmul x y = nearestDouble (fst x * fst y) 1 (snd x + snd y)"

text \<open>
  \<^verbatim>\<open>Math.round\<close>: the integer nearest to the argument, the larger one of two that are
  equally near, that is \<open>\<lfloor>x + 1/2\<rfloor>\<close>.
\<close>

definition Math_round :: "double \<Rightarrow> int" where
  "Math_round x =
     (if 0 \<le> snd x then fst x * 2 ^ nat (snd x)
      else (let d = 2 ^ nat (- snd x) in (2 * fst x + d) div (2 * d)))"

section \<open>ScoreTracker\<close>

text \<open>
  \<^verbatim>\<open>new Date()\<close> is a parameter \<open>now\<close> of the operations that read the clock, in
  milliseconds. A \<^verbatim>\<open>throw\<close> is a result \<^term>\<open>Some e\<close> beside the state as it stood when
  the exception left the method. An absent question is \<^const>\<open>None\<close>. The time used is an
  integer number of seconds. On a string, \<^verbatim>\<open>userAnswer || ''\<close> is the string itself.
\<close>

record answerRecord =
  questionNumber :: nat
  questionId :: string
  questionType :: string
  questionText :: string
  displayValue_r :: string
  correctAnswer_r :: string
  userAnswer :: string
  isCorrect :: bool
  timeUsed :: int
  timedOut :: bool
  timestamp :: int

record scoreTracker =
  answerRecords :: "answerRecord list"
  startTime_s :: "int option"
  endTime_s :: "int option"
  totalQuestions :: nat

datatype error = Error string

definition newScoreTracker :: scoreTracker where
  "newScoreTracker =
     \<lparr>answerRecords = [], startTime_s = None, endTime_s = None, totalQuestions = 0\<rparr>"

definition initialize :: "nat \<Rightarrow> int \<Rightarrow> scoreTracker \<Rightarrow> scoreTracker" where
  "initialize n now st =
     st\<lparr>answerRecords := [], startTime_s := Some now, endTime_s := None, totalQuestions := n\<rparr>"

definition recordAnswer ::
  "question option \<Rightarrow> string \<Rightarrow> bool \<Rightarrow> int \<Rightarrow> bool \<Rightarrow> int \<Rightarrow> scoreTracker
    \<Rightarrow> error option \<times> scoreTracker" where
  "recordAnswer q userAnswer' isCorrect' timeUsed' timedOut' now st =
     (case q of
        None \<Rightarrow> (Some (Error ''Question object is required''), st)
      | Some question \<Rightarrow>
          (let answerRecord =
                 \<lparr>questionNumber = length (answerRecords st) + 1,
                  questionId = id_q question,
                  questionType = type_q question,
                  questionText = prompt question,
                  displayValue_r = displayValue question,
                  correctAnswer_r = correctAnswer question,
                  userAnswer = userAnswer',
                  isCorrect = isCorrect',
                  timeUsed = max 0 (min timeUsed' QUESTION_TIME_LIMIT),
                  timedOut = timedOut',
                  timestamp = now\<rparr>
           in (None, st\<lparr>answerRecords := answerRecords st @ [answerRecord]\<rparr>)))"

definition completeQuiz :: "int \<Rightarrow> scoreTracker \<Rightarrow> scoreTracker" where
  "completeQuiz now st = st\<lparr>endTime_s := Some now\<rparr>"

record score =
  correct :: nat
  incorrect :: nat
  timeout :: nat
  total :: nat
  percentage :: int

definition getScore :: "scoreTracker \<Rightarrow> score" where
  "getScore st =
     (let correct' = length (filter isCorrect (answerRecords st));
          incorrect' = length (filter (\<lambda>r. \<not> isCorrect r \<and> \<not> timedOut r) (answerRecords st));
          timeout' = length (filter timedOut (answerRecords st));
          total' = length (answerRecords st)
      in \<lparr>correct = correct',
          incorrect = incorrect',
          timeout = timeout',
          total = total',
          percentage =
            (if total' > 0
             then Math_round (fmul (fdiv (fromNat correct') (fromNat total')) (fromNat 100))
             else 0)\<rparr>)"

definition reset :: "scoreTracker \<Rightarrow> scoreTracker" where
  "reset st = st\<lparr>answerRecords := [], startTime_s := None, endTime_s := None, totalQuestions := 0\<rparr>"





section \<open>Timer\<close>

text \<open>
  Instants are integers, in milliseconds; \<^verbatim>\<open>getHighResolutionTime()\<close> is a parameter
  \<open>now\<close> of every operation that reads the clock. The field \<^verbatim>\<open>startTime\<close> is
  \<^verbatim>\<open>null\<close> until the first start, which arithmetic reads as 0. The two callbacks are
  functions of the caller: the timer stores whether each one is set, and every operation
  returns, beside the new state, the calls it made to them, in order. A callback is taken
  to return normally and not to call back into the timer.

  The scheduler's part of the state: \<^verbatim>\<open>intervalId\<close> is true while a handle of
  \<^verbatim>\<open>setInterval\<close> is stored, and \<open>zeroTimeouts\<close> counts the
  \<^verbatim>\<open>setTimeout(..., 0)\<close> callbacks of starts with no time left that are scheduled and
  have not run: every such start schedules one, and nothing cancels it (\<^verbatim>\<open>stop\<close> clears
  the interval only).
\<close>

datatype call = OnTick int | OnComplete

record timer =
  duration :: int
  timeRemaining :: int
  intervalId :: bool
  isRunning :: bool
  onTickCallback :: bool
  onCompleteCallback :: bool
  startTime :: int
  pausedTime :: int
  isPaused :: bool
  zeroTimeouts :: nat

definition newTimer :: timer where
  "newTimer =
     \<lparr>duration = 0, timeRemaining = 0, intervalId = False, isRunning = False,
      onTickCallback = False, onCompleteCallback = False, startTime = 0, pausedTime = 0,
      isPaused = False, zeroTimeouts = 0\<rparr>"

definition stop :: "timer \<Rightarrow> timer" where
  "stop t =
     t\<lparr>intervalId := False, isRunning := False, isPaused := False, timeRemaining := 0,
       onTickCallback := False, onCompleteCallback := False\<rparr>"

definition start :: "int \<Rightarrow> bool \<Rightarrow> bool \<Rightarrow> int \<Rightarrow> timer \<Rightarrow> timer \<times> call list" where
  "start duration' onComplete onTick now t =
     (let t0 = (if isRunning t then stop t else t);
          t1 = t0\<lparr>duration := duration', timeRemaining := duration',
                  onCompleteCallback := onComplete, onTickCallback := onTick,
                  isRunning := True, startTime := now, pausedTime := 0, isPaused := False\<rparr>;
          calls = (if onTick then [OnTick duration'] else [])
      in if duration' \<le> 0 then (t1\<lparr>zeroTimeouts := zeroTimeouts t1 + 1\<rparr>, calls)
         else (t1\<lparr>intervalId := True\<rparr>, calls))"

definition pause :: "int \<Rightarrow> timer \<Rightarrow> timer" where
  "pause now t =
     (if isRunning t \<and> \<not> isPaused t
      then t\<lparr>isPaused := True, pausedTime := now, intervalId := False\<rparr>
      else t)"

definition resume :: "int \<Rightarrow> timer \<Rightarrow> timer" where
  "resume now t =
     (if isRunning t \<and> isPaused t
      then (let pauseDuration = now - pausedTime t
            in t\<lparr>isPaused := False, startTime := startTime t + pauseDuration,
                 intervalId := True\<rparr>)
      else t)"

definition handleTimerComplete_timer :: "timer \<Rightarrow> timer \<times> call list" where
  "handleTimerComplete_timer t =
     (let callback = onCompleteCallback t
      in (stop t, if callback then [OnComplete] else []))"

definition tick :: "int \<Rightarrow> timer \<Rightarrow> timer \<times> call list" where
  "tick now t =
     (if \<not> isRunning t \<or> isPaused t then (t, [])
      else (let elapsedTime = (now - startTime t) div 1000;
                t1 = t\<lparr>timeRemaining := max 0 (duration t - elapsedTime)\<rparr>;
                calls = (if onTickCallback t1 then [OnTick (timeRemaining t1)] else [])
            in if timeRemaining t1 \<le> 0
               then (let (t2, calls') = handleTimerComplete_timer t1 in (t2, calls @ calls'))
               else (t1, calls)))"

definition getTimeRemaining :: "timer \<Rightarrow> int" where
  "getTimeRemaining t = timeRemaining t"

definition getElapsedTime :: "int \<Rightarrow> timer \<Rightarrow> int" where
  "getElapsedTime now t =
     (if \<not> isRunning t then 0
      else (let currentTime = (if isPaused t then pausedTime t else now)
            in (currentTime - startTime t) div 1000))"

definition isActive :: "timer \<Rightarrow> bool" where
  "isActive t = isRunning t"

definition isPausedState :: "timer \<Rightarrow> bool" where
  "isPausedState t = isPaused t"

subsection \<open>A run of the timer\<close>

text \<open>
  What the scheduler does after \<^verbatim>\<open>start\<close> when nothing else touches the timer: every
  pending zero timeout runs, one after the other, and calls \<^verbatim>\<open>handleTimerComplete\<close>
  (they are due at once, the interval after a second); then the interval calls
  \<^verbatim>\<open>tick\<close> at the instants \<open>ts\<close>, one after the other, for as long as the interval
  is armed.
\<close>

definition fireZeroTimeout :: "timer \<Rightarrow> timer \<times> call list" where
  "fireZeroTimeout t =
     (if zeroTimeouts t = 0 then (t, [])
      else handleTimerComplete_timer (t\<lparr>zeroTimeouts := zeroTimeouts t - 1\<rparr>))"

fun fireZeroTimeouts :: "nat \<Rightarrow> timer \<Rightarrow> timer \<times> call list" where
  "fireZeroTimeouts 0 t = (t, [])"
| "fireZeroTimeouts (Suc n) t =
     (let (t1, calls) = fireZeroTimeout t;
          (t2, calls') = fireZeroTimeouts n t1
      in (t2, calls @ calls'))"

fun runTicks :: "int list \<Rightarrow> timer \<Rightarrow> timer \<times> call list" where
  "runTicks [] t = (t, [])"
| "runTicks (now # ts) t =
     (if intervalId t
      then (let (t1, calls) = tick now t;
                (t2, calls') = runTicks ts t1
            in (t2, calls @ calls'))
      else (t, []))"

definition runTimer :: "int \<Rightarrow> int \<Rightarrow> int list \<Rightarrow> timer \<Rightarrow> timer \<times> call list" where
  "runTimer duration' now ts t =
     (let (t1, calls1) = start duration' True True now t;
          (t2, calls2) = fireZeroTimeouts (zeroTimeouts t1) t1;
          (t3, calls3) = runTicks ts t2
      in (t3, calls1 @ calls2 @ calls3))"

fun tickValues :: "call list \<Rightarrow> int list" where
  "tickValues [] = []"
| "tickValues (OnTick v # cs) = v # tickValues cs"
| "tickValues (OnComplete # cs) = tickValues cs"

fun completions :: "call list \<Rightarrow> nat" where
  "completions [] = 0"
| "completions (OnTick v # cs) = completions cs"
| "completions (OnComplete # cs) = Suc (completions cs)"

subsection \<open>Notions used in the proofs about a run\<close>

text \<open>
  The remaining time that \<^verbatim>\<open>tick\<close> computes at the instant \<open>x\<close> for a timer of
  duration \<open>d\<close> started at \<open>now0\<close>, and the states in which a run with both callbacks
  set is under way.
\<close>

definition remainingAt :: "int \<Rightarrow> int \<Rightarrow> int \<Rightarrow> int" where
  "remainingAt d now0 x = max 0 (d - (x - now0) div 1000)"

definition live :: "int \<Rightarrow> int \<Rightarrow> timer \<Rightarrow> bool" where
  "live d now0 t \<longleftrightarrow>
     isRunning t \<and> \<not> isPaused t \<and> intervalId t \<and> onTickCallback t \<and> onCompleteCallback t
     \<and> duration t = d \<and> startTime t = now0"

section \<open>QuizGame\<close>

text \<open>
  The controller owns a timer and a score tracker; the module-level \<^verbatim>\<open>gameState\<close> is part
  of its state here (its field \<^verbatim>\<open>answers\<close>, which nothing reads, is left out). The
  presentation layer (\<^verbatim>\<open>UIManager\<close>) is outside the model: each call to it is appended to
  the log \<open>ui\<close> and is taken to return normally. \<open>pendingAdvances\<close> counts the
  \<^verbatim>\<open>setTimeout(..., 2000)\<close> callbacks that are scheduled and have not run. The ten
  questions that \<^verbatim>\<open>generateAllQuestions\<close> draws at random are a parameter of
  \<^verbatim>\<open>startQuiz\<close>. \<^verbatim>\<open>Date.now()\<close> and \<^verbatim>\<open>new Date()\<close> are the parameter \<open>now\<close>, the
  timer's clock is the parameter \<open>hr\<close>; \<^verbatim>\<open>currentQuestionStartTime\<close> is \<^verbatim>\<open>null\<close> until
  the first question, which arithmetic reads as 0.
\<close>

datatype status = Not_started | Active | Completed | Error_status

datatype uiCall =
    ShowSection string
  | DisplayQuestion "question option" nat
  | UpdateTimer int
  | ShowFeedback bool string string
  | ShowTimeoutFeedback string
  | ShowInputError "string option"
  | DisableQuizControls
  | RenderResults score
  | ResetUI

record quizGame =
  timer :: timer
  scoreTracker :: scoreTracker
  currentQuestion :: "question option"
  currentQuestionStartTime :: int
  isWaitingForNextQuestion :: bool
  currentQuestionIndex :: nat
  questions :: "question list"
  status :: status
  startTime_g :: "int option"
  endTime_g :: "int option"
  ui :: "uiCall list"
  pendingAdvances :: nat

definition newQuizGame :: quizGame where
  "newQuizGame =
     \<lparr>timer = newTimer, scoreTracker = newScoreTracker, currentQuestion = None,
      currentQuestionStartTime = 0, isWaitingForNextQuestion = False,
      currentQuestionIndex = 0, questions = [], status = Not_started, startTime_g = None,
      endTime_g = None, ui = [], pendingAdvances = 0\<rparr>"

definition handleError :: "string \<Rightarrow> quizGame \<Rightarrow> quizGame" where
  "handleError message g =
     (let g1 = g\<lparr>ui := ui g @ [ShowInputError (Some message)]\<rparr>
      in if status g1 = Active
         then g1\<lparr>timer := stop (timer g1), status := Error_status\<rparr>
         else g1)"

definition handleTimerTick :: "int \<Rightarrow> quizGame \<Rightarrow> quizGame" where
  "handleTimerTick timeRemaining' g = g\<lparr>ui := ui g @ [UpdateTimer timeRemaining']\<rparr>"

definition handleTimerComplete :: "int \<Rightarrow> quizGame \<Rightarrow> quizGame" where
  "handleTimerComplete now g =
     (if isWaitingForNextQuestion g \<or> status g \<noteq> Active then g
      else (case currentQuestion g of
              None \<Rightarrow> g
            | Some q \<Rightarrow>
                (let timeUsed' = QUESTION_TIME_LIMIT;
                     (err, st) = recordAnswer (currentQuestion g) [] False timeUsed' True now
                                   (scoreTracker g)
                 in case err of
                      Some e \<Rightarrow> g\<lparr>scoreTracker := st\<rparr>
                    | None \<Rightarrow>
                        g\<lparr>scoreTracker := st,
                          ui := ui g @ [ShowTimeoutFeedback (correctAnswer q), DisableQuizControls],
                          isWaitingForNextQuestion := True,
                          pendingAdvances := pendingAdvances g + 1\<rparr>)))"

text \<open>
  The calls that the timer makes go to the two handlers that \<^verbatim>\<open>nextQuestion\<close> passes to
  \<^verbatim>\<open>start\<close>.
\<close>

fun deliver :: "call list \<Rightarrow> int \<Rightarrow> quizGame \<Rightarrow> quizGame" where
  "deliver [] now g = g"
| "deliver (OnTick r # cs) now g = deliver cs now (handleTimerTick r g)"
| "deliver (OnComplete # cs) now g = deliver cs now (handleTimerComplete now g)"

definition endQuiz :: "int \<Rightarrow> quizGame \<Rightarrow> quizGame" where
  "endQuiz now g =
     (let g1 = g\<lparr>timer := stop (timer g), status := Completed, endTime_g := Some now,
                 scoreTracker := completeQuiz now (scoreTracker g)\<rparr>
      in g1\<lparr>ui := ui g1 @ [RenderResults (getScore (scoreTracker g1))]\<rparr>)"

definition nextQuestion :: "int \<Rightarrow> int \<Rightarrow> quizGame \<Rightarrow> quizGame" where
  "nextQuestion hr now g =
     (if currentQuestionIndex g \<ge> TOTAL_QUESTIONS then endQuiz now g
      else (let q = (if currentQuestionIndex g < length (questions g)
                     then Some (questions g ! currentQuestionIndex g) else None);
                questionNumber' = currentQuestionIndex g + 1;
                g1 = g\<lparr>timer := stop (timer g), currentQuestion := q,
                        ui := ui g @ [DisplayQuestion q questionNumber'],
                        currentQuestionStartTime := now, isWaitingForNextQuestion := False\<rparr>;
                (t, calls) = start QUESTION_TIME_LIMIT True True hr (timer g1);
                g2 = deliver calls now (g1\<lparr>timer := t\<rparr>)
            in case q of
                 None \<Rightarrow> handleError ''Failed to load next question. Please try again.'' g2
               | Some _ \<Rightarrow> g2))"

definition submitAnswer :: "string \<Rightarrow> int \<Rightarrow> quizGame \<Rightarrow> quizGame" where
  "submitAnswer answer now g =
     (if isWaitingForNextQuestion g \<or> status g \<noteq> Active then g
      else (case currentQuestion g of
              None \<Rightarrow> g
            | Some q \<Rightarrow>
                if \<not> isActive (timer g) \<or> getTimeRemaining (timer g) \<le> 0 then g
                else (let expectedType =
                            (if type_q q = ''alphabet-to-number'' then ''number'' else ''letter'');
                          validation = validateInput answer expectedType
                      in if \<not> isValid validation
                         then g\<lparr>ui := ui g @ [ShowInputError (errorMessage validation)]\<rparr>
                         else (let timeUsed' = (now - currentQuestionStartTime g) div 1000;
                                   g1 = g\<lparr>timer := stop (timer g)\<rparr>;
                                   isCorrect' = validateAnswer answer (correctAnswer q);
                                   (err, st) = recordAnswer (currentQuestion g1) answer isCorrect'
                                                 timeUsed' False now (scoreTracker g1)
                               in case err of
                                    Some e \<Rightarrow>
                                      handleError ''Failed to process answer. Please try again.''
                                        (g1\<lparr>scoreTracker := st\<rparr>)
                                  | None \<Rightarrow>
                                      g1\<lparr>scoreTracker := st,
                                         ui := ui g1 @ [ShowFeedback isCorrect' (correctAnswer q) answer,
                                                        DisableQuizControls],
                                         isWaitingForNextQuestion := True,
                                         pendingAdvances := pendingAdvances g1 + 1\<rparr>))))"

definition resetGameState :: "quizGame \<Rightarrow> quizGame" where
  "resetGameState g =
     g\<lparr>currentQuestionIndex := 0, questions := [], status := Not_started, startTime_g := None,
       endTime_g := None, currentQuestion := None, currentQuestionStartTime := 0,
       isWaitingForNextQuestion := False, scoreTracker := reset (scoreTracker g),
       ui := ui g @ [ResetUI]\<rparr>"

definition startQuiz :: "question list \<Rightarrow> int \<Rightarrow> int \<Rightarrow> quizGame \<Rightarrow> quizGame" where
  "startQuiz qs hr now g =
     (let g1 = resetGameState g;
          g2 = g1\<lparr>scoreTracker := initialize TOTAL_QUESTIONS now (scoreTracker g1)\<rparr>;
          g3 = g2\<lparr>questions := qs, status := Active, startTime_g := Some now,
                  currentQuestionIndex := 0, ui := ui g2 @ [ShowSection ''quiz'']\<rparr>
      in nextQuestion hr now g3)"

definition pauseQuiz :: "int \<Rightarrow> quizGame \<Rightarrow> quizGame" where
  "pauseQuiz hr g =
     (if status g = Active \<and> isActive (timer g) then g\<lparr>timer := pause hr (timer g)\<rparr> else g)"

definition resumeQuiz :: "int \<Rightarrow> quizGame \<Rightarrow> quizGame" where
  "resumeQuiz hr g =
     (if status g = Active \<and> isPausedState (timer g) then g\<lparr>timer := resume hr (timer g)\<rparr>
      else g)"

subsection \<open>What happens to a game\<close>

text \<open>
  The events that reach the controller: the user submits an answer; the timer's interval
  fires, if it is armed, and the timer calls the handlers; the completion handler is called
  (by whoever holds it); a scheduled advance runs, which increments the index and calls
  \<^verbatim>\<open>nextQuestion\<close>; the quiz is paused or resumed; the page loses or gains the focus,
  and the handlers of \<^verbatim>\<open>setupFocusHandling\<close> pause or resume the timer itself.
\<close>

datatype event =
    Submit string int
  | TimerTick int int
  | TimerComplete int
  | Advance int int
  | PauseQuiz int
  | ResumeQuiz int
  | FocusLost int
  | FocusGained int

definition timerTick :: "int \<Rightarrow> int \<Rightarrow> quizGame \<Rightarrow> quizGame" where
  "timerTick hr now g =
     (if intervalId (timer g)
      then (let (t, calls) = tick hr (timer g) in deliver calls now (g\<lparr>timer := t\<rparr>))
      else g)"

definition advance :: "int \<Rightarrow> int \<Rightarrow> quizGame \<Rightarrow> quizGame" where
  "advance hr now g =
     (if pendingAdvances g = 0 then g
      else nextQuestion hr now
             (g\<lparr>pendingAdvances := pendingAdvances g - 1,
                currentQuestionIndex := currentQuestionIndex g + 1\<rparr>))"

fun step :: "event \<Rightarrow> quizGame \<Rightarrow> quizGame" where
  "step (Submit answer now) g = submitAnswer answer now g"
| "step (TimerTick hr now) g = timerTick hr now g"
| "step (TimerComplete now) g = handleTimerComplete now g"
| "step (Advance hr now) g = advance hr now g"
| "step (PauseQuiz hr) g = pauseQuiz hr g"
| "step (ResumeQuiz hr) g = resumeQuiz hr g"
| "step (FocusLost hr) g = g\<lparr>timer := pause hr (timer g)\<rparr>"
| "step (FocusGained hr) g = g\<lparr>timer := resume hr (timer g)\<rparr>"

fun run :: "event list \<Rightarrow> quizGame \<Rightarrow> quizGame" where
  "run [] g = g"
| "run (e # es) g = run es (step e g)"

fun isAdvance :: "event \<Rightarrow> bool" where
  "isAdvance (Advance hr now) = True"
| "isAdvance _ = False"

text \<open>The invariant of an answer record, with the time that a timeout records.\<close>

definition recordInvariant :: "answerRecord \<Rightarrow> bool" where
  "recordInvariant r \<longleftrightarrow>
     (timedOut r \<longrightarrow> \<not> isCorrect r \<and> userAnswer r = [] \<and> timeUsed r = QUESTION_TIME_LIMIT)"

text \<open>
  Ten questions, the first one as \<^verbatim>\<open>generateAlphabetToNumberQuestion\<close> builds it for
  the letter M, and the game that \<^verbatim>\<open>startQuiz\<close> makes of them at the instant 0.
\<close>

definition sampleQuestion2 :: question where
  "sampleQuestion2 =
     \<lparr>id_q = ''q_2'', type_q = ''alphabet-to-number'', prompt = ''What number is the letter M?'',
      correctAnswer = ''13'', displayValue = ''M''\<rparr>"

definition sampleQuestions :: "question list" where
  "sampleQuestions = sampleQuestion2 # replicate 9 sampleQuestion"

definition sampleGame :: quizGame where
  "sampleGame = startQuiz sampleQuestions 0 0 newQuizGame"

subsection \<open>Notions used in the proofs about a game\<close>

text \<open>
  \<open>turnStep\<close> relates two states of one turn: either no record is appended and a latch
  that is set stays set, or the latch gets set and one record that satisfies the invariant
  is appended. \<open>openTurns\<close> counts the records and the turn that is still open.
  \<open>appended\<close> names the records added between two states. \<open>latchInvariant\<close> ties the
  latch to the timer.
\<close>

definition turnStep :: "quizGame \<Rightarrow> quizGame \<Rightarrow> bool" where
  "turnStep g g' \<longleftrightarrow>
     (answerRecords (scoreTracker g') = answerRecords (scoreTracker g)
        \<and> (isWaitingForNextQuestion g \<longrightarrow> isWaitingForNextQuestion g'))
     \<or> (\<not> isWaitingForNextQuestion g \<and> isWaitingForNextQuestion g'
        \<and> (\<exists>r. answerRecords (scoreTracker g') = answerRecords (scoreTracker g) @ [r]
               \<and> recordInvariant r))"

definition openTurns :: "quizGame \<Rightarrow> nat" where
  "openTurns g =
     length (answerRecords (scoreTracker g)) + (if isWaitingForNextQuestion g then 0 else 1)"

definition appended :: "quizGame \<Rightarrow> quizGame \<Rightarrow> answerRecord list \<Rightarrow> bool" where
  "appended g g' new \<longleftrightarrow>
     answerRecords (scoreTracker g') = answerRecords (scoreTracker g) @ new
     \<and> list_all recordInvariant new"

definition latchInvariant :: "quizGame \<Rightarrow> bool" where
  "latchInvariant g \<longleftrightarrow>
     (isWaitingForNextQuestion g \<longrightarrow> \<not> isRunning (timer g))
     \<and> (status g = Active \<and> isRunning (timer g) \<longrightarrow> currentQuestion g \<noteq> None)"

fun isTimerComplete :: "event \<Rightarrow> bool" where
  "isTimerComplete (TimerComplete now) = True"
| "isTimerComplete _ = False"

chapter \<open>Properties\<close>

section \<open>Facts about strings\<close>

lemma trim_Nil [simp]: "trim [] = []"
  by (simp add: trim_def)

lemma toUpperCase_Nil_iff [simp]: "toUpperCase s = [] \<longleftrightarrow> s = []"
  by (simp add: toUpperCase_def)

lemma isWhiteSpace_toUpperChar [simp]: "isWhiteSpace (toUpperChar c) \<longleftrightarrow> isWhiteSpace c"
  by (auto simp: isWhiteSpace_def toUpperChar_def isLower_def)

lemma toUpperChar_idem [simp]: "toUpperChar (toUpperChar c) = toUpperChar c"
  by (auto simp: toUpperChar_def isLower_def)

lemma toUpperCase_idem [simp]: "toUpperCase (toUpperCase s) = toUpperCase s"
  by (simp add: toUpperCase_def)

lemma dropWhile_ws_toUpperCase:
  "dropWhile isWhiteSpace (toUpperCase s) = toUpperCase (dropWhile isWhiteSpace s)"
  by (induction s) (simp_all add: toUpperCase_def)

lemma isWhiteSpace_comp_toUpperChar: "isWhiteSpace \<circ> toUpperChar = isWhiteSpace"
  by (rule ext) simp

lemma trim_toUpperCase: "trim (toUpperCase s) = toUpperCase (trim s)"
  by (simp add: trim_def toUpperCase_def dropWhile_map rev_map isWhiteSpace_comp_toUpperChar)

lemma dropWhile_rev_dropWhile_rev:
  assumes "ys = [] \<or> \<not> P (hd ys)"
  shows "dropWhile P (rev (dropWhile P (rev ys))) = rev (dropWhile P (rev ys))"
proof (cases ys)
  case Nil
  then show ?thesis by simp
next
  case (Cons x xs)
  with assms have nx: "\<not> P x" by simp
  have "\<exists>zs. dropWhile P (rev xs @ [x]) = zs @ [x]"
  proof (cases "\<forall>y\<in>set (rev xs). P y")
    case True
    then have "dropWhile P (rev xs @ [x]) = [] @ [x]"
      using nx by (simp add: dropWhile_append)
    then show ?thesis by blast
  next
    case False
    then have "dropWhile P (rev xs @ [x]) = dropWhile P (rev xs) @ [x]"
      by (simp add: dropWhile_append)
    then show ?thesis by blast
  qed
  then obtain zs where zs: "dropWhile P (rev xs @ [x]) = zs @ [x]" ..
  show ?thesis
    using nx zs Cons by simp
qed

lemma trim_idem [simp]: "trim (trim s) = trim s"
proof -
  let ?ys = "dropWhile isWhiteSpace s"
  have hd: "?ys = [] \<or> \<not> isWhiteSpace (hd ?ys)"
    using hd_dropWhile [of isWhiteSpace s] by blast
  have a: "dropWhile isWhiteSpace (trim s) = trim s"
    unfolding trim_def by (rule dropWhile_rev_dropWhile_rev [of "dropWhile isWhiteSpace s" isWhiteSpace, OF hd])
  have b: "dropWhile isWhiteSpace (rev (trim s)) = rev (trim s)"
    by (simp add: trim_def)
  show ?thesis
    unfolding trim_def [of "trim s"] a b by simp
qed

lemma normalizeAnswer_idem: "normalizeAnswer (normalizeAnswer s) = normalizeAnswer s"
  by (simp add: normalizeAnswer_def trim_toUpperCase)


section \<open>Facts about decimal numerals\<close>

lemma of_char_digitChar: "d < 10 \<Longrightarrow> (of_char (digitChar d) :: nat) = 48 + d"
  by (simp add: digitChar_def)

lemma isDigit_digitChar: "d < 10 \<Longrightarrow> isDigit (digitChar d)"
  by (simp add: isDigit_def of_char_digitChar)

lemma digitVal_digitChar: "d < 10 \<Longrightarrow> digitVal (digitChar d) = d"
  by (simp add: digitVal_def of_char_digitChar)

lemma digits_not_Nil: "digits n \<noteq> []"
  by (subst digits.simps) simp

lemma digits_all_isDigit: "c \<in> set (digits n) \<Longrightarrow> isDigit c"
proof (induction n arbitrary: c rule: digits.induct)
  case (1 n)
  show ?case
  proof (cases "n < 10")
    case True
    with "1.prems" show ?thesis
      by (subst (asm) digits.simps) (simp add: isDigit_digitChar)
  next
    case False
    with "1.prems" have "c \<in> set (digits (n div 10)) \<or> c = digitChar (n mod 10)"
      by (subst (asm) digits.simps) auto
    then show ?thesis
      using "1.IH" [OF False] by (auto simp: isDigit_digitChar)
  qed
qed

lemma digitsValue_snoc: "digitsValue (ds @ [c]) = 10 * digitsValue ds + digitVal c"
  by (simp add: digitsValue_def)

lemma digitsValue_digits: "digitsValue (digits n) = n"
proof (induction n rule: digits.induct)
  case (1 n)
  show ?case
  proof (cases "n < 10")
    case True
    then show ?thesis
      by (subst digits.simps) (simp add: digitsValue_def digitVal_digitChar)
  next
    case False
    then show ?thesis
      using "1.IH" [OF False]
      by (subst digits.simps) (simp add: digitsValue_snoc digitVal_digitChar)
  qed
qed

lemma isDigit_not_special:
  "isDigit c \<Longrightarrow> \<not> isWhiteSpace c \<and> c \<noteq> CHR ''-'' \<and> c \<noteq> CHR ''+''"
  by (auto simp: isDigit_def isWhiteSpace_def)

lemma parseInt_digits: "parseInt (digits n) = Some (int n)"
proof -
  obtain c r where cr: "digits n = c # r"
    using digits_not_Nil [of n] by (cases "digits n") auto
  have "isDigit c"
    using digits_all_isDigit [of c n] cr by simp
  then have c: "\<not> isWhiteSpace c" "c \<noteq> CHR ''-''" "c \<noteq> CHR ''+''"
    using isDigit_not_special by blast+
  have tw: "takeWhile isDigit (digits n) = digits n"
    using digits_all_isDigit by (simp add: takeWhile_eq_all_conv)
  have "parseInt (c # r) = Some (int (digitsValue (c # r)))"
    using c tw cr by (simp add: parseInt_def)
  then show ?thesis
    by (simp add: cr [symmetric] digitsValue_digits)
qed

section \<open>QuestionGenerator: the cases of the repository's tests\<close>

text \<open>
  The unit tests of the repository, on strings, hold of the model.
\<close>

lemma isValidNumber_tests:
  "isValidNumber ''1''" "isValidNumber ''26''" "isValidNumber ''13''" "isValidNumber '' 5 ''"
  "\<not> isValidNumber ''0''" "\<not> isValidNumber ''27''" "\<not> isValidNumber ''-1''"
  "\<not> isValidNumber ''1.5''" "\<not> isValidNumber ''A''" "\<not> isValidNumber []"
  "\<not> isValidNumber ''01''"
  by code_simp+

lemma isValidLetter_tests:
  "isValidLetter ''A''" "isValidLetter ''a''" "isValidLetter ''Z''" "isValidLetter ''z''"
  "isValidLetter ''M''" "isValidLetter '' A ''"
  "\<not> isValidLetter []" "\<not> isValidLetter ''AB''" "\<not> isValidLetter ''1''"
  "\<not> isValidLetter ''!''"
  by code_simp+

lemma validateAnswer_tests:
  "validateAnswer ''A'' ''A''" "validateAnswer ''13'' ''13''" "validateAnswer ''a'' ''A''"
  "validateAnswer ''A'' ''a''" "validateAnswer ''z'' ''Z''" "validateAnswer '' A '' ''A''"
  "validateAnswer ''A'' '' A ''" "validateAnswer '' 13 '' ''13''"
  "\<not> validateAnswer ''A'' ''B''" "\<not> validateAnswer ''13'' ''14''"
  "\<not> validateAnswer [] ''A''" "\<not> validateAnswer ''A'' []"
  by code_simp+

lemma validateInput_tests:
  "validateInput ''A'' ''letter'' = \<lparr>isValid = True, errorMessage = None\<rparr>"
  "validateInput ''13'' ''number'' = \<lparr>isValid = True, errorMessage = None\<rparr>"
  "validateInput [] ''letter'' = \<lparr>isValid = False, errorMessage = Some ''Please enter an answer''\<rparr>"
  "validateInput ''123'' ''letter''
     = \<lparr>isValid = False, errorMessage = Some ''Please enter a single letter (A-Z)''\<rparr>"
  "validateInput ''ABC'' ''number''
     = \<lparr>isValid = False, errorMessage = Some ''Please enter a number between 1 and 26''\<rparr>"
  by code_simp+

section \<open>QuestionGenerator: the claims\<close>

text \<open>
  C3 (\<^verbatim>\<open>validateAnswer\<close>, \<^verbatim>\<open>normalizeAnswer\<close>). The claim says that for all strings
  \<open>a\<close> and \<open>b\<close>, matching \<open>a\<close> against \<open>b\<close> gives the same result as matching their
  normalized forms. \<^verbatim>\<open>validateAnswer\<close> tests its arguments for emptiness before it
  normalizes them, so on two strings of white space only it compares two empty normal forms
  and answers true, while on the normal forms themselves it answers false: the equation fails
  at \<open>a = b = '' ''\<close>.
\<close>

theorem validateAnswer_whitespace_counterexample:
  "\<not> (validateAnswer '' '' '' '' =
      validateAnswer (normalizeAnswer '' '') (normalizeAnswer '' ''))"
  by (simp add: validateAnswer_def normalizeAnswer_def trim_def isWhiteSpace_def)

lemma validateAnswer_refl: "x \<noteq> [] \<Longrightarrow> validateAnswer x x"
  by (simp add: validateAnswer_def)

text \<open>
  C3, as amended: \<^verbatim>\<open>validateAnswer\<close> answers false when either argument is empty and
  otherwise compares the normalized values, where normalizing trims white space and
  upper-cases; matching two strings gives the same result as matching their normalized
  forms exactly when the two strings are not both non-empty strings whose normal form is
  empty (strings of white space only); and every non-empty well-formed answer, a valid
  letter or a valid number, matches itself.
\<close>

theorem validateAnswer_normalize:
  "validateAnswer a b = (a \<noteq> [] \<and> b \<noteq> [] \<and> normalizeAnswer a = normalizeAnswer b)
   \<and> normalizeAnswer a = toUpperCase (trim a)
   \<and> ((validateAnswer a b = validateAnswer (normalizeAnswer a) (normalizeAnswer b)) =
        (\<not> (a \<noteq> [] \<and> b \<noteq> [] \<and> normalizeAnswer a = [] \<and> normalizeAnswer b = [])))
   \<and> (x \<noteq> [] \<and> (isValidLetter x \<or> isValidNumber x) \<longrightarrow> validateAnswer x x)"
proof -
  have n: "normalizeAnswer [] = []"
    by (simp add: normalizeAnswer_def)
  have 1: "validateAnswer a b
      = (a \<noteq> [] \<and> b \<noteq> [] \<and> normalizeAnswer a = normalizeAnswer b)"
    by (auto simp: validateAnswer_def)
  have 2: "normalizeAnswer a = toUpperCase (trim a)"
    by (simp add: normalizeAnswer_def)
  have 3: "(validateAnswer a b = validateAnswer (normalizeAnswer a) (normalizeAnswer b)) =
      (\<not> (a \<noteq> [] \<and> b \<noteq> [] \<and> normalizeAnswer a = [] \<and> normalizeAnswer b = []))"
    by (auto simp: validateAnswer_def normalizeAnswer_idem n)
  have 4: "x \<noteq> [] \<and> (isValidLetter x \<or> isValidNumber x) \<longrightarrow> validateAnswer x x"
    by (simp add: validateAnswer_refl)
  from 1 2 3 4 show ?thesis
    by blast
qed

theorem validateAnswer_normalize_witness:
  "validateAnswer '' m '' ''M'' =
     validateAnswer (normalizeAnswer '' m '') (normalizeAnswer ''M'')
   \<and> validateAnswer '' m '' ''M''
   \<and> \<not> validateAnswer ''A'' ''B''
   \<and> isValidLetter ''M'' \<and> validateAnswer ''M'' ''M''
   \<and> isValidNumber ''13'' \<and> validateAnswer ''13'' ''13''"
proof -
  have n: "normalizeAnswer '' m '' = ''M''" "normalizeAnswer ''M'' = ''M''"
    "normalizeAnswer ''A'' = ''A''" "normalizeAnswer ''B'' = ''B''"
    by code_simp+
  have w: "isValidLetter ''M''" "isValidNumber ''13''"
    by code_simp+
  note t1 = validateAnswer_normalize [of "'' m ''" "''M''" "''M''"]
  note t2 = validateAnswer_normalize [of "''A''" "''B''" "''13''"]
  from t1 have a: "validateAnswer '' m '' ''M''
      = ('' m '' \<noteq> [] \<and> ''M'' \<noteq> [] \<and> normalizeAnswer '' m '' = normalizeAnswer ''M'')"
    by (rule conjunct1)
  from t2 have b: "validateAnswer ''A'' ''B''
      = (''A'' \<noteq> [] \<and> ''B'' \<noteq> [] \<and> normalizeAnswer ''A'' = normalizeAnswer ''B'')"
    by (rule conjunct1)
  from t1 have c: "(validateAnswer '' m '' ''M''
        = validateAnswer (normalizeAnswer '' m '') (normalizeAnswer ''M''))
      = (\<not> ('' m '' \<noteq> [] \<and> ''M'' \<noteq> [] \<and> normalizeAnswer '' m '' = []
            \<and> normalizeAnswer ''M'' = []))"
    by blast
  from t1 have d: "''M'' \<noteq> [] \<and> (isValidLetter ''M'' \<or> isValidNumber ''M'')
      \<longrightarrow> validateAnswer ''M'' ''M''"
    by blast
  from t2 have e: "''13'' \<noteq> [] \<and> (isValidLetter ''13'' \<or> isValidNumber ''13'')
      \<longrightarrow> validateAnswer ''13'' ''13''"
    by blast
  from a n have 1: "validateAnswer '' m '' ''M''"
    by simp
  from b n have 2: "\<not> validateAnswer ''A'' ''B''"
    by simp
  from c n have 3: "validateAnswer '' m '' ''M''
      = validateAnswer (normalizeAnswer '' m '') (normalizeAnswer ''M'')"
    by simp
  from d w have 4: "validateAnswer ''M'' ''M''"
    by simp
  from e w have 5: "validateAnswer ''13'' ''13''"
    by simp
  from 1 2 3 4 5 w show ?thesis
    by blast
qed

text \<open>
  C7 (\<^verbatim>\<open>isValidNumber\<close>). For every input string, \<^verbatim>\<open>isValidNumber\<close> answers true if
  and only if the trimmed input is exactly the decimal rendering, as
  \<^verbatim>\<open>toString\<close> writes it (no leading zero, no sign, no decimal point, nothing else), of
  an integer between 1 and 26.
\<close>

theorem isValidNumber_iff:
  "isValidNumber s = (\<exists>n. 1 \<le> n \<and> n \<le> 26 \<and> trim s = toString n)"
proof
  assume v: "isValidNumber s"
  then obtain number where "parseInt (trim s) = Some number"
    and "toString number = trim s" and "1 \<le> number" and "number \<le> 26"
    by (auto simp: isValidNumber_def Let_def MIN_NUMBER_def MAX_NUMBER_def
        split: if_splits option.splits)
  then show "\<exists>n. 1 \<le> n \<and> n \<le> 26 \<and> trim s = toString n"
    by (intro exI [of _ number]) simp
next
  assume "\<exists>n. 1 \<le> n \<and> n \<le> 26 \<and> trim s = toString n"
  then obtain n where n: "1 \<le> n" "n \<le> 26" and t: "trim s = toString n"
    by blast
  from n have ts: "toString n = digits (nat n)"
    by (simp add: toString_def)
  have "trim s \<noteq> []"
    by (simp add: t ts digits_not_Nil)
  then have s: "s \<noteq> []"
    by auto
  have "parseInt (trim s) = Some n"
    using n by (simp add: t ts parseInt_digits)
  then show "isValidNumber s"
    using s n t by (simp add: isValidNumber_def MIN_NUMBER_def MAX_NUMBER_def)
qed

text \<open>
  C10 (\<^verbatim>\<open>validateInput\<close>). For every input that is not blank and every expected type
  other than \<^verbatim>\<open>letter\<close> and \<^verbatim>\<open>number\<close>, \<^verbatim>\<open>validateInput\<close> accepts: the result is
  valid and carries no message, whatever the input is.
\<close>

theorem validateInput_unrecognized_type:
  assumes "trim input \<noteq> []"
    and "expectedType \<noteq> ''letter''"
    and "expectedType \<noteq> ''number''"
  shows "validateInput input expectedType = \<lparr>isValid = True, errorMessage = None\<rparr>"
proof -
  from assms(1) have "input \<noteq> []"
    by auto
  with assms show ?thesis
    by (simp add: validateInput_def)
qed

theorem validateInput_unrecognized_type_witness:
  "trim ''zz 99'' \<noteq> [] \<and> \<not> isValidLetter ''zz 99'' \<and> \<not> isValidNumber ''zz 99''
   \<and> validateInput ''zz 99'' ''word'' = \<lparr>isValid = True, errorMessage = None\<rparr>"
proof -
  have t: "trim ''zz 99'' = ''zz 99''"
    by (simp add: trim_def isWhiteSpace_def)
  have l: "\<not> isValidLetter ''zz 99''"
    by (simp add: isValidLetter_def t toUpperCase_def)
  have n: "\<not> isValidNumber ''zz 99''"
    by (simp add: isValidNumber_def t parseInt_def isWhiteSpace_def isDigit_def)
  show ?thesis
    using validateInput_unrecognized_type [of "''zz 99''" "''word''"] t l n by simp
qed

section \<open>Numbers: the two roundings of the percentage\<close>


















section \<open>ScoreTracker: the claims\<close>

text \<open>
  C8 (\<^verbatim>\<open>recordAnswer\<close>). \<^verbatim>\<open>recordAnswer\<close> throws exactly when the question is absent,
  and then leaves the tracker as it was; otherwise it appends exactly one record, whose
  number is the previous length of the log plus one and whose time is the given time clamped
  into the interval from 0 to the time limit.
\<close>

theorem recordAnswer_spec:
  "((fst (recordAnswer q ua ic tu to now st) \<noteq> None) = (q = None))
   \<and> (q = None \<longrightarrow>
        recordAnswer q ua ic tu to now st = (Some (Error ''Question object is required''), st))
   \<and> (q \<noteq> None \<longrightarrow>
        (\<exists>r. answerRecords (snd (recordAnswer q ua ic tu to now st)) = answerRecords st @ [r]
           \<and> questionNumber r = length (answerRecords st) + 1
           \<and> timeUsed r = max 0 (min tu QUESTION_TIME_LIMIT)
           \<and> 0 \<le> timeUsed r \<and> timeUsed r \<le> QUESTION_TIME_LIMIT))"
  by (cases q) (auto simp: recordAnswer_def QUESTION_TIME_LIMIT_def)

theorem recordAnswer_spec_witness:
  "fst (recordAnswer None ''M'' True 3 False 0 newScoreTracker) \<noteq> None
   \<and> snd (recordAnswer None ''M'' True 3 False 0 newScoreTracker) = newScoreTracker
   \<and> (\<exists>r. answerRecords (snd (recordAnswer (Some sampleQuestion) ''M'' True 42 False 0
            newScoreTracker)) = [r]
          \<and> questionNumber r = 1 \<and> timeUsed r = 10)"
  using recordAnswer_spec [of None "''M''" True 3 False 0 newScoreTracker]
    recordAnswer_spec [of "Some sampleQuestion" "''M''" True 42 False 0 newScoreTracker]
  by (auto simp: newScoreTracker_def QUESTION_TIME_LIMIT_def)


text \<open>
  The two roundings on twenty-three correct answers out of forty: the quotient is the double
  next below \<open>0.575\<close>, and its product with 100 is the double next below \<open>57.5\<close>,
  which \<^verbatim>\<open>Math.round\<close> takes down to 57.
\<close>

lemma doubles_23_of_40:
  "fdiv (fromNat 23) (fromNat 40) = (5179139571476070, - 53)
   \<and> fmul (fdiv (fromNat 23) (fromNat 40)) (fromNat 100) = (8092405580431359, - 47)
   \<and> 8092405580431359 < (115 * 2 ^ 46 :: int)
   \<and> 115 * 2 ^ 46 - 8092405580431359 = (1 :: int)"
proof -
  have "fdiv (fromNat 23) (fromNat 40) = (5179139571476070, - 53)"
    by code_simp
  moreover have "fmul (5179139571476070, - 53) (fromNat 100) = (8092405580431359, - 47)"
    by code_simp
  ultimately show ?thesis
    by simp
qed




section \<open>Timer: facts about a run\<close>

lemma runTicks_unarmed: "\<not> intervalId t \<Longrightarrow> runTicks ts t = (t, [])"
  by (cases ts) simp_all

lemma tick_live_positive:
  assumes "live d now0 t" and "0 < remainingAt d now0 x"
  shows "tick x t = (t\<lparr>timeRemaining := remainingAt d now0 x\<rparr>, [OnTick (remainingAt d now0 x)])"
proof -
  from assms(2) have "0 < d - (x - now0) div 1000"
    by (simp add: remainingAt_def)
  with assms(1) show ?thesis
    by (simp add: tick_def live_def remainingAt_def Let_def)
qed

lemma tick_live_zero:
  assumes "live d now0 t" and "remainingAt d now0 x \<le> 0"
  shows "tick x t = (stop (t\<lparr>timeRemaining := 0\<rparr>), [OnTick 0, OnComplete])"
proof -
  from assms(2) have "d - (x - now0) div 1000 \<le> 0"
    by (simp add: remainingAt_def)
  with assms(1) show ?thesis
    by (simp add: tick_def live_def Let_def handleTimerComplete_timer_def stop_def)
qed

lemma live_update: "live d now0 t \<Longrightarrow> live d now0 (t\<lparr>timeRemaining := r\<rparr>)"
  by (simp add: live_def)

lemma runTicks_live:
  assumes "live d now0 t"
  shows "snd (runTicks ts t) =
           map (\<lambda>x. OnTick (remainingAt d now0 x)) (takeWhile (\<lambda>x. 0 < remainingAt d now0 x) ts)
           @ (if \<forall>x\<in>set ts. 0 < remainingAt d now0 x then [] else [OnTick 0, OnComplete])
         \<and> isRunning (fst (runTicks ts t)) = (\<forall>x\<in>set ts. 0 < remainingAt d now0 x)"
  using assms
proof (induction ts arbitrary: t)
  case Nil
  then show ?case by (simp add: live_def)
next
  case (Cons x ts)
  from Cons.prems have armed: "intervalId t"
    by (simp add: live_def)
  show ?case
  proof (cases "0 < remainingAt d now0 x")
    case True
    note tk = tick_live_positive [OF Cons.prems True]
    from Cons.IH [OF live_update [OF Cons.prems]] True armed tk
    show ?thesis
      by (simp add: split_beta)
  next
    case False
    then have le: "remainingAt d now0 x \<le> 0" by simp
    note tk = tick_live_zero [OF Cons.prems le]
    have un: "\<not> intervalId (stop (t\<lparr>timeRemaining := 0\<rparr>))"
      by (simp add: stop_def)
    show ?thesis
      using False armed tk runTicks_unarmed [OF un]
      by (simp add: split_beta stop_def)
  qed
qed


lemma tickValues_append: "tickValues (cs @ cs') = tickValues cs @ tickValues cs'"
  by (induction cs rule: tickValues.induct) simp_all

lemma completions_append: "completions (cs @ cs') = completions cs + completions cs'"
  by (induction cs rule: completions.induct) simp_all

lemma tickValues_map_OnTick: "tickValues (map (\<lambda>x. OnTick (f x)) xs) = map f xs"
  by (induction xs) simp_all

lemma completions_map_OnTick: "completions (map (\<lambda>x. OnTick (f x)) xs) = 0"
  by (induction xs) simp_all

lemma remainingAt_antimono: "x \<le> y \<Longrightarrow> remainingAt d now0 y \<le> remainingAt d now0 x"
proof -
  assume "x \<le> y"
  then have "(x - now0) div 1000 \<le> (y - now0) div 1000"
    by (intro zdiv_mono1) simp_all
  then show ?thesis
    by (simp add: remainingAt_def)
qed

lemma remainingAt_le: "now0 \<le> x \<Longrightarrow> remainingAt d now0 x \<le> max 0 d"
proof -
  assume "now0 \<le> x"
  then have "0 \<le> (x - now0) div 1000"
    by (simp add: pos_imp_zdiv_nonneg_iff)
  then show ?thesis
    by (simp add: remainingAt_def)
qed

lemma remainingAt_deadline: "now0 + 1000 * d \<le> x \<Longrightarrow> remainingAt d now0 x = 0"
proof -
  assume "now0 + 1000 * d \<le> x"
  then have "(1000 * d) div 1000 \<le> (x - now0) div 1000"
    by (intro zdiv_mono1) simp_all
  then show ?thesis
    by (simp add: remainingAt_def)
qed

lemma sorted_remainingAt:
  assumes "sorted xs"
  shows "sorted_wrt (\<lambda>a b. b \<le> a) (map (remainingAt d now0) xs)"
proof -
  have "sorted_wrt (\<lambda>x y. remainingAt d now0 y \<le> remainingAt d now0 x) xs"
    using assms
    by (rule sorted_wrt_mono_rel [rotated]) (simp add: remainingAt_antimono)
  then show ?thesis
    by (simp add: sorted_wrt_map)
qed

lemma start_live:
  assumes "0 < d"
  shows "live d now (fst (start d True True now t))"
    and "snd (start d True True now t) = [OnTick d]"
    and "zeroTimeouts (fst (start d True True now t)) = zeroTimeouts t"
  using assms by (simp_all add: start_def live_def stop_def Let_def)

section \<open>Timer: the claims\<close>

text \<open>
  C2 (\<^verbatim>\<open>start\<close>, \<^verbatim>\<open>tick\<close>). The claim speaks of every run of
  \<^verbatim>\<open>start(d, onComplete, onTick)\<close> with \<open>d \<ge> 0\<close> that nothing stops, pauses or
  restarts, and says that the values passed to \<^verbatim>\<open>onTick\<close> never increase and end with
  0. It fails in two ways. A \<^verbatim>\<open>start(5, ...)\<close> on a timer that a \<^verbatim>\<open>start(0, ...)\<close>
  has just started is completed by the timeout of the earlier start, which \<^verbatim>\<open>stop\<close> does
  not cancel: the only tick of the run carries 5. And \<^verbatim>\<open>tick\<close> computes the remaining
  time from the clock, so that a reading of the clock that lies before the start (the
  fallback \<^verbatim>\<open>Date.now()\<close> after the system clock is set back) raises the value from 5
  to 6.
\<close>

theorem timer_run_counterexample:
  "snd (runTimer 5 0 [1000, 2000, 3000, 4000, 5000] (fst (start 0 True True 0 newTimer)))
     = [OnTick 5, OnComplete]
   \<and> last (tickValues (snd (runTimer 5 0 [1000, 2000, 3000, 4000, 5000]
              (fst (start 0 True True 0 newTimer))))) = 5
   \<and> tickValues (snd (runTimer 5 1000 [500, 7000] newTimer)) = [5, 6, 0]"
  by (simp add: runTimer_def start_def newTimer_def fireZeroTimeout_def tick_def Let_def
      handleTimerComplete_timer_def stop_def)

text \<open>
  C2, as amended: a run of \<^verbatim>\<open>start(d, onComplete, onTick)\<close> with \<open>d \<ge> 0\<close>, on a
  timer with no zero timeout pending from an earlier start, that nothing stops, pauses or
  restarts, under a clock that does not run backwards (the instants of the ticks are in
  order and none precedes the start) and an interval that keeps firing until the time is
  up. Then the values passed to \<^verbatim>\<open>onTick\<close> begin with \<open>d\<close>, end with 0 and never
  increase, \<^verbatim>\<open>onComplete\<close> is called exactly once, and the timer ends stopped. What a
  start does while a zero timeout of an earlier start is pending is left open.
\<close>

theorem timer_run:
  assumes d: "0 \<le> d"
    and nz: "zeroTimeouts t = 0"
    and mono: "sorted (now # ts)"
    and fair: "0 < d \<longrightarrow> (\<exists>x\<in>set ts. now + 1000 * d \<le> x)"
  shows "tickValues (snd (runTimer d now ts t)) \<noteq> []
    \<and> hd (tickValues (snd (runTimer d now ts t))) = d
    \<and> last (tickValues (snd (runTimer d now ts t))) = 0
    \<and> sorted_wrt (\<lambda>a b. b \<le> a) (tickValues (snd (runTimer d now ts t)))
    \<and> completions (snd (runTimer d now ts t)) = 1
    \<and> \<not> isRunning (fst (runTimer d now ts t))"
proof (cases "d = 0")
  case True
  have s: "start 0 True True now t
      = ((if isRunning t then stop t else t)\<lparr>duration := 0, timeRemaining := 0,
            onCompleteCallback := True, onTickCallback := True, isRunning := True,
            startTime := now, pausedTime := 0, isPaused := False, zeroTimeouts := Suc 0\<rparr>,
         [OnTick 0])"
    using nz by (simp add: start_def stop_def Let_def)
  have "runTimer 0 now ts t = (fst (runTimer 0 now ts t), [OnTick 0, OnComplete])
      \<and> \<not> isRunning (fst (runTimer 0 now ts t))"
    by (simp add: runTimer_def s fireZeroTimeout_def handleTimerComplete_timer_def
        runTicks_unarmed stop_def split_beta)
  then have c: "snd (runTimer 0 now ts t) = [OnTick 0, OnComplete]"
    and r: "\<not> isRunning (fst (runTimer 0 now ts t))"
    by (metis snd_conv, blast)
  show ?thesis
    unfolding True c using r by simp
next
  case False
  with d have pos: "0 < d" by simp
  let ?t1 = "fst (start d True True now t)"
  let ?rem = "remainingAt d now"
  let ?tw = "takeWhile (\<lambda>x. 0 < ?rem x) ts"
  note st = start_live [OF pos, of now t]
  from fair pos obtain x where x: "x \<in> set ts" "now + 1000 * d \<le> x"
    by blast
  have "?rem x = 0"
    using x(2) by (rule remainingAt_deadline)
  with x(1) have ex: "\<not> (\<forall>x\<in>set ts. 0 < ?rem x)"
    by force
  have fz: "fireZeroTimeouts (zeroTimeouts ?t1) ?t1 = (?t1, [])"
    using st(3) nz by simp
  note rl = runTicks_live [OF st(1), of ts]
  have calls: "snd (runTimer d now ts t)
      = OnTick d # map (\<lambda>x. OnTick (?rem x)) ?tw @ [OnTick 0, OnComplete]"
    using rl ex st(2) fz by (simp add: runTimer_def split_beta)
  have run: "\<not> isRunning (fst (runTimer d now ts t))"
    using rl ex fz by (simp add: runTimer_def split_beta)
  have vals: "tickValues (snd (runTimer d now ts t)) = d # map ?rem ?tw @ [0]"
    by (simp add: calls tickValues_append tickValues_map_OnTick)
  have comps: "completions (snd (runTimer d now ts t)) = 1"
    by (simp add: calls completions_append completions_map_OnTick)
  from mono have sts: "sorted ts" and ge: "\<forall>x\<in>set ts. now \<le> x"
    by simp_all
  have "sorted ?tw"
    using sts by (rule sorted_takeWhile)
  then have s1: "sorted_wrt (\<lambda>a b. b \<le> a) (map ?rem ?tw)"
    by (rule sorted_remainingAt)
  have s2: "\<forall>y\<in>set (map ?rem ?tw). 0 \<le> y \<and> y \<le> d"
  proof
    fix y assume "y \<in> set (map ?rem ?tw)"
    then obtain z where z: "z \<in> set ?tw" "y = ?rem z" by auto
    then have "z \<in> set ts" by (meson set_takeWhileD)
    with ge have "now \<le> z" by blast
    from remainingAt_le [OF this, of d] pos z show "0 \<le> y \<and> y \<le> d"
      by (simp add: remainingAt_def)
  qed
  have sorted: "sorted_wrt (\<lambda>a b. b \<le> a) (d # map ?rem ?tw @ [0])"
    using s1 s2 pos by (auto simp: sorted_wrt_append)
  show ?thesis
    unfolding vals using sorted comps run by simp
qed

theorem timer_run_witness:
  "tickValues (snd (runTimer 3 5000 [6001, 7003, 7999, 8004, 9000] newTimer)) = [3, 2, 1, 1, 0]
   \<and> completions (snd (runTimer 3 5000 [6001, 7003, 7999, 8004, 9000] newTimer)) = 1
   \<and> sorted (5000 # [6001, 7003, 7999, 8004, 9000 :: int])"
proof -
  have "snd (runTimer 3 5000 [6001, 7003, 7999, 8004, 9000] newTimer)
      = [OnTick 3, OnTick 2, OnTick 1, OnTick 1, OnTick 0, OnComplete]"
    by (simp add: runTimer_def start_def newTimer_def fireZeroTimeout_def tick_def Let_def
        handleTimerComplete_timer_def stop_def)
  then show ?thesis
    using timer_run [of 3 newTimer 5000 "[6001, 7003, 7999, 8004, 9000]"]
    by (simp add: newTimer_def)
qed

text \<open>
  C6 (\<^verbatim>\<open>pause\<close>, \<^verbatim>\<open>resume\<close>). For a running timer paused at the instant \<open>p\<close> and
  resumed at the instant \<open>r\<close>: the remaining time read after the resume is the one read
  before the pause; the start instant has moved forward by the paused duration \<open>r - p\<close>, so
  that the elapsed time right after the resume is the elapsed time at the pause, and a tick
  at the resume computes the remaining time that a tick at the pause would have computed.
  A pause of a timer that is not running or is paused already, and a resume of a timer that
  is not running or is not paused, change nothing.
\<close>

theorem pause_resume:
  "(isRunning t \<and> \<not> isPaused t \<longrightarrow>
      getTimeRemaining (pause p t) = getTimeRemaining t
    \<and> getTimeRemaining (resume r (pause p t)) = getTimeRemaining t
    \<and> startTime (resume r (pause p t)) = startTime t + (r - p)
    \<and> getElapsedTime r (resume r (pause p t)) = getElapsedTime p t
    \<and> timeRemaining (fst (tick r (resume r (pause p t)))) = timeRemaining (fst (tick p t))
    \<and> snd (tick r (resume r (pause p t))) = snd (tick p t))
   \<and> (\<not> isRunning t \<or> isPaused t \<longrightarrow> pause p t = t)
   \<and> (\<not> isRunning t \<or> \<not> isPaused t \<longrightarrow> resume r t = t)"
proof -
  have shift: "(r - (startTime t + (r - p))) div 1000 = (p - startTime t) div 1000"
    by simp
  have a: "isRunning t \<and> \<not> isPaused t \<Longrightarrow>
      resume r (pause p t)
        = t\<lparr>isPaused := False, pausedTime := p, intervalId := True,
             startTime := startTime t + (r - p)\<rparr>"
    by (simp add: pause_def resume_def Let_def)
  show ?thesis
    by (auto simp: a shift getTimeRemaining_def getElapsedTime_def tick_def Let_def
        handleTimerComplete_timer_def stop_def pause_def resume_def split_beta)
qed

theorem pause_resume_witness:
  "getTimeRemaining (resume 9000 (pause 3900 (fst (tick 3100 (fst (start 10 True True 0 newTimer))))))
     = 7
   \<and> getElapsedTime 9000
       (resume 9000 (pause 3900 (fst (tick 3100 (fst (start 10 True True 0 newTimer)))))) = 3
   \<and> pause 3900 newTimer = newTimer
   \<and> resume 9000 newTimer = newTimer"
proof -
  let ?t = "fst (tick 3100 (fst (start 10 True True 0 newTimer)))"
  have t: "?t = \<lparr>duration = 10, timeRemaining = 7, intervalId = True, isRunning = True,
      onTickCallback = True, onCompleteCallback = True, startTime = 0, pausedTime = 0,
      isPaused = False, zeroTimeouts = 0\<rparr>"
    by (simp add: start_def tick_def newTimer_def Let_def)
  have e: "getElapsedTime 3900 ?t = 3" "getTimeRemaining ?t = 7"
    by (simp_all add: t getElapsedTime_def getTimeRemaining_def)
  show ?thesis
    using pause_resume [of ?t 3900 9000] pause_resume [of newTimer 3900 9000] e
    by (simp add: t) (simp add: newTimer_def)
qed

section \<open>QuizGame: facts about a turn\<close>

lemma turnStep_refl: "turnStep g g"
  by (simp add: turnStep_def)

lemma turnStep_trans: "turnStep g g1 \<Longrightarrow> turnStep g1 g2 \<Longrightarrow> turnStep g g2"
  unfolding turnStep_def by auto

lemma turnStep_timer: "turnStep (g\<lparr>timer := t\<rparr>) g' \<Longrightarrow> turnStep g g'"
  by (simp add: turnStep_def)

lemma handleTimerComplete_waiting:
  "isWaitingForNextQuestion g \<Longrightarrow> handleTimerComplete now g = g"
  by (simp add: handleTimerComplete_def)

lemma submitAnswer_waiting: "isWaitingForNextQuestion g \<Longrightarrow> submitAnswer a now g = g"
  by (simp add: submitAnswer_def)

lemma submitAnswer_expired:
  "\<not> isActive (timer g) \<or> getTimeRemaining (timer g) \<le> 0 \<Longrightarrow> submitAnswer a now g = g"
  by (auto simp: submitAnswer_def split: option.splits)

lemma turnStep_handleTimerComplete: "turnStep g (handleTimerComplete now g)"
  by (auto simp: turnStep_def handleTimerComplete_def recordAnswer_def recordInvariant_def
      QUESTION_TIME_LIMIT_def Let_def split: option.splits)

lemma turnStep_handleTimerTick: "turnStep g (handleTimerTick r g)"
  by (simp add: turnStep_def handleTimerTick_def)

lemma turnStep_deliver: "turnStep g (deliver calls now g)"
proof (induction calls now g rule: deliver.induct)
  case (1 now g)
  show ?case by (simp add: turnStep_refl)
next
  case (2 r cs now g)
  from turnStep_handleTimerTick "2.IH" show ?case
    by (simp del: deliver.simps(1) add: turnStep_trans [of g "handleTimerTick r g"])
next
  case (3 cs now g)
  from turnStep_handleTimerComplete "3.IH" show ?case
    by (simp add: turnStep_trans [of g "handleTimerComplete now g"])
qed

lemma turnStep_submitAnswer: "turnStep g (submitAnswer a now g)"
  by (auto simp: turnStep_def submitAnswer_def recordAnswer_def recordInvariant_def
      Let_def handleError_def split: option.splits)

lemma turnStep_timerTick: "turnStep g (timerTick hr now g)"
proof (cases "intervalId (timer g)")
  case True
  obtain t calls where tk: "tick hr (timer g) = (t, calls)"
    by (cases "tick hr (timer g)")
  have "turnStep (g\<lparr>timer := t\<rparr>) (deliver calls now (g\<lparr>timer := t\<rparr>))"
    by (rule turnStep_deliver)
  then have "turnStep g (deliver calls now (g\<lparr>timer := t\<rparr>))"
    by (rule turnStep_timer)
  then show ?thesis
    using True tk by (simp add: timerTick_def)
next
  case False
  then show ?thesis
    by (simp add: timerTick_def turnStep_refl)
qed

lemma turnStep_pauseQuiz: "turnStep g (pauseQuiz hr g)"
  by (simp add: turnStep_def pauseQuiz_def)

lemma turnStep_resumeQuiz: "turnStep g (resumeQuiz hr g)"
  by (simp add: turnStep_def resumeQuiz_def)

lemma turnStep_step: "\<not> isAdvance e \<Longrightarrow> turnStep g (step e g)"
  by (cases e)
    (simp_all add: turnStep_submitAnswer turnStep_timerTick turnStep_handleTimerComplete
      turnStep_pauseQuiz turnStep_resumeQuiz turnStep_timer [OF turnStep_refl])

lemma start_calls: "snd (start d True True hr t) = [OnTick d]"
  by (simp add: start_def Let_def)

lemma records_handleError:
  "answerRecords (scoreTracker (handleError m g)) = answerRecords (scoreTracker g)"
  by (simp add: handleError_def Let_def)

lemma records_nextQuestion:
  "answerRecords (scoreTracker (nextQuestion hr now g)) = answerRecords (scoreTracker g)"
proof (cases "currentQuestionIndex g \<ge> TOTAL_QUESTIONS")
  case True
  then show ?thesis
    by (simp add: nextQuestion_def endQuiz_def completeQuiz_def Let_def)
next
  case False
  obtain t calls where st: "start QUESTION_TIME_LIMIT True True hr (stop (timer g)) = (t, calls)"
    by (cases "start QUESTION_TIME_LIMIT True True hr (stop (timer g))")
  with start_calls [of QUESTION_TIME_LIMIT hr "stop (timer g)"]
  have calls: "calls = [OnTick QUESTION_TIME_LIMIT]"
    by simp
  show ?thesis
    using False st
    by (simp add: nextQuestion_def Let_def calls handleTimerTick_def records_handleError
        split: option.splits)
qed

lemma records_advance:
  "answerRecords (scoreTracker (advance hr now g)) = answerRecords (scoreTracker g)"
  by (simp add: advance_def records_nextQuestion)

lemma openTurns_turnStep: "turnStep g g' \<Longrightarrow> openTurns g' \<le> openTurns g"
  unfolding turnStep_def openTurns_def by auto

lemma openTurns_step:
  "openTurns (step e g) \<le> openTurns g + (if isAdvance e then 1 else 0)"
proof (cases "isAdvance e")
  case True
  then obtain hr now where e: "e = Advance hr now"
    by (cases e) simp_all
  show ?thesis
    using records_advance [of hr now g] by (simp add: e openTurns_def)
next
  case False
  then show ?thesis
    using openTurns_turnStep [OF turnStep_step [OF False, of g]] by simp
qed

lemma openTurns_run:
  "openTurns (run evs g) \<le> openTurns g + length (filter isAdvance evs)"
proof (induction evs arbitrary: g)
  case Nil
  show ?case by simp
next
  case (Cons e evs)
  have "openTurns (run evs (step e g)) \<le> openTurns (step e g) + length (filter isAdvance evs)"
    by (rule Cons.IH)
  also have "\<dots> \<le> openTurns g + (if isAdvance e then 1 else 0) + length (filter isAdvance evs)"
    using openTurns_step [of e g] by simp
  finally show ?case
    by (cases "isAdvance e") simp_all
qed

lemma records_run_bound:
  "length (answerRecords (scoreTracker (run evs g)))
     \<le> length (answerRecords (scoreTracker g)) + 1 + length (filter isAdvance evs)"
proof -
  have "length (answerRecords (scoreTracker (run evs g))) \<le> openTurns (run evs g)"
    by (simp add: openTurns_def)
  also have "\<dots> \<le> openTurns g + length (filter isAdvance evs)"
    by (rule openTurns_run)
  also have "\<dots> \<le> length (answerRecords (scoreTracker g)) + 1 + length (filter isAdvance evs)"
    by (simp add: openTurns_def)
  finally show ?thesis .
qed

lemma waiting_run:
  "isWaitingForNextQuestion g \<Longrightarrow> \<forall>e\<in>set evs. \<not> isAdvance e \<Longrightarrow>
     isWaitingForNextQuestion (run evs g)
     \<and> answerRecords (scoreTracker (run evs g)) = answerRecords (scoreTracker g)"
proof (induction evs arbitrary: g)
  case Nil
  then show ?case by simp
next
  case (Cons e evs)
  then have "\<not> isAdvance e" by simp
  from turnStep_step [OF this, of g] Cons.prems(1)
  have "isWaitingForNextQuestion (step e g)
      \<and> answerRecords (scoreTracker (step e g)) = answerRecords (scoreTracker g)"
    by (auto simp: turnStep_def)
  with Cons.IH [of "step e g"] Cons.prems(2) show ?case
    by simp
qed

lemma appended_step: "\<exists>new. appended g (step e g) new"
proof (cases "isAdvance e")
  case True
  then obtain hr now where e: "e = Advance hr now"
    by (cases e) simp_all
  have "appended g (step e g) []"
    by (simp add: appended_def e records_advance)
  then show ?thesis ..
next
  case False
  from turnStep_step [OF False, of g]
  have "appended g (step e g) [] \<or> (\<exists>r. appended g (step e g) [r])"
    unfolding turnStep_def appended_def by auto
  then show ?thesis
    by blast
qed

lemma appended_run: "\<exists>new. appended g (run evs g) new"
proof (induction evs arbitrary: g)
  case Nil
  have "appended g (run [] g) []"
    by (simp add: appended_def)
  then show ?case ..
next
  case (Cons e evs)
  obtain new1 where n1: "appended g (step e g) new1"
    using appended_step by blast
  obtain new2 where n2: "appended (step e g) (run evs (step e g)) new2"
    using Cons.IH by blast
  have "appended g (run (e # evs) g) (new1 @ new2)"
    using n1 n2 by (simp add: appended_def)
  then show ?case ..
qed

lemma sampleGame_eq:
  "sampleGame =
     \<lparr>timer = \<lparr>duration = 10, timeRemaining = 10, intervalId = True, isRunning = True,
               onTickCallback = True, onCompleteCallback = True, startTime = 0, pausedTime = 0,
               isPaused = False, zeroTimeouts = 0\<rparr>,
      scoreTracker = \<lparr>answerRecords = [], startTime_s = Some 0, endTime_s = None,
                      totalQuestions = 10\<rparr>,
      currentQuestion = Some sampleQuestion2, currentQuestionStartTime = 0,
      isWaitingForNextQuestion = False, currentQuestionIndex = 0, questions = sampleQuestions,
      status = Active, startTime_g = Some 0, endTime_g = None,
      ui = [ResetUI, ShowSection ''quiz'', DisplayQuestion (Some sampleQuestion2) 1,
            UpdateTimer 10],
      pendingAdvances = 0\<rparr>"
  by (simp add: sampleGame_def startQuiz_def resetGameState_def newQuizGame_def newTimer_def
      newScoreTracker_def reset_def initialize_def nextQuestion_def TOTAL_QUESTIONS_def
      sampleQuestions_def start_def stop_def QUESTION_TIME_LIMIT_def Let_def
      handleTimerTick_def)

lemma list_all_recordInvariant:
  "list_all recordInvariant new \<Longrightarrow>
     \<forall>r\<in>set new. timedOut r \<longrightarrow>
       \<not> isCorrect r \<and> userAnswer r = [] \<and> timeUsed r = QUESTION_TIME_LIMIT"
  by (simp add: list_all_iff recordInvariant_def)

lemma submitAnswer_record:
  "answerRecords (scoreTracker (submitAnswer a now g)) \<noteq> answerRecords (scoreTracker g) \<Longrightarrow>
     \<exists>r. answerRecords (scoreTracker (submitAnswer a now g)) = answerRecords (scoreTracker g) @ [r]
        \<and> \<not> timedOut r"
  by (auto simp: submitAnswer_def recordAnswer_def Let_def handleError_def
      split: option.splits if_splits)

lemma handleTimerComplete_record:
  "answerRecords (scoreTracker (handleTimerComplete now g)) \<noteq> answerRecords (scoreTracker g) \<Longrightarrow>
     \<exists>r. answerRecords (scoreTracker (handleTimerComplete now g))
            = answerRecords (scoreTracker g) @ [r]
        \<and> timedOut r \<and> \<not> isCorrect r \<and> userAnswer r = [] \<and> timeUsed r = QUESTION_TIME_LIMIT"
  by (auto simp: handleTimerComplete_def recordAnswer_def Let_def QUESTION_TIME_LIMIT_def
      split: option.splits if_splits)

lemma validateInput_message:
  "\<not> isValid (validateInput a ty) \<Longrightarrow> \<exists>m. errorMessage (validateInput a ty) = Some m"
  by (auto simp: validateInput_def split: if_splits)

section \<open>QuizGame: the latch and the timer in a session\<close>

text \<open>
  In a session that \<^verbatim>\<open>startQuiz\<close> begins and in which the timeout handler is called by
  the timer only, the latch is set only when the timer is stopped, and wherever the session
  is active and the timer runs there is a current question: the conditions of an open turn
  follow from an active session with an active timer.
\<close>

lemma latchInvariant_stopped: "\<not> isRunning (timer g) \<Longrightarrow> latchInvariant g"
  by (simp add: latchInvariant_def)

lemma deliver_fields:
  "timer (deliver calls now g) = timer g \<and> status (deliver calls now g) = status g
   \<and> currentQuestion (deliver calls now g) = currentQuestion g"
  by (induction calls now g rule: deliver.induct)
    (auto simp: handleTimerTick_def handleTimerComplete_def recordAnswer_def Let_def
      split: option.splits)

lemma deliver_no_complete:
  "OnComplete \<notin> set calls \<Longrightarrow>
     isWaitingForNextQuestion (deliver calls now g) = isWaitingForNextQuestion g"
  by (induction calls now g rule: deliver.induct) (simp_all add: handleTimerTick_def)

lemma tick_cases:
  "(isRunning (fst (tick hr t)) = isRunning t \<and> OnComplete \<notin> set (snd (tick hr t)))
   \<or> \<not> isRunning (fst (tick hr t))"
  by (simp add: tick_def Let_def handleTimerComplete_timer_def stop_def)

lemma latchInvariant_timerTick:
  assumes "latchInvariant g"
  shows "latchInvariant (timerTick hr now g)"
proof (cases "intervalId (timer g)")
  case False
  with assms show ?thesis by (simp add: timerTick_def)
next
  case True
  let ?t = "fst (tick hr (timer g))" and ?calls = "snd (tick hr (timer g))"
  let ?g' = "deliver ?calls now (g\<lparr>timer := ?t\<rparr>)"
  have eq: "timerTick hr now g = ?g'"
    using True by (simp add: timerTick_def split_beta)
  note f = deliver_fields [of ?calls now "g\<lparr>timer := ?t\<rparr>"]
  from tick_cases [of hr "timer g"] show ?thesis
  proof
    assume a: "isRunning ?t = isRunning (timer g) \<and> OnComplete \<notin> set ?calls"
    then have "isWaitingForNextQuestion ?g' = isWaitingForNextQuestion g"
      using deliver_no_complete [of ?calls now "g\<lparr>timer := ?t\<rparr>"] by simp
    with a f assms show ?thesis
      by (simp add: eq latchInvariant_def)
  next
    assume "\<not> isRunning ?t"
    with f show ?thesis
      by (simp add: eq latchInvariant_stopped)
  qed
qed

lemma submitAnswer_cases:
  "(timer (submitAnswer a now g) = timer g
      \<and> isWaitingForNextQuestion (submitAnswer a now g) = isWaitingForNextQuestion g
      \<and> status (submitAnswer a now g) = status g
      \<and> currentQuestion (submitAnswer a now g) = currentQuestion g)
   \<or> \<not> isRunning (timer (submitAnswer a now g))"
  by (auto simp: submitAnswer_def recordAnswer_def Let_def handleError_def stop_def
      split: option.splits)

lemma latchInvariant_submitAnswer:
  "latchInvariant g \<Longrightarrow> latchInvariant (submitAnswer a now g)"
  using submitAnswer_cases [of a now g] by (auto simp: latchInvariant_def)

lemma latchInvariant_nextQuestion: "latchInvariant (nextQuestion hr now g)"
proof (cases "currentQuestionIndex g \<ge> TOTAL_QUESTIONS")
  case True
  then show ?thesis
    by (simp add: nextQuestion_def endQuiz_def stop_def Let_def latchInvariant_def)
next
  case False
  obtain t where st: "start QUESTION_TIME_LIMIT True True hr (stop (timer g))
      = (t, [OnTick QUESTION_TIME_LIMIT])"
    using start_calls [of QUESTION_TIME_LIMIT hr "stop (timer g)"]
    by (cases "start QUESTION_TIME_LIMIT True True hr (stop (timer g))") simp
  have sp: "\<And>t. \<not> isRunning (stop t)"
    by (simp add: stop_def)
  show ?thesis
    using False
    by (simp add: nextQuestion_def Let_def st handleTimerTick_def handleError_def
        latchInvariant_def sp split: option.splits)
qed

lemma latchInvariant_step:
  assumes "\<not> isTimerComplete e" and "latchInvariant g"
  shows "latchInvariant (step e g)"
proof (cases e)
  case (Submit a now)
  with assms show ?thesis by (simp add: latchInvariant_submitAnswer)
next
  case (TimerTick hr now)
  with assms show ?thesis by (simp add: latchInvariant_timerTick)
next
  case (TimerComplete now)
  with assms show ?thesis by simp
next
  case (Advance hr now)
  with assms show ?thesis by (simp add: advance_def latchInvariant_nextQuestion)
next
  case (PauseQuiz hr)
  with assms show ?thesis
    by (simp add: pauseQuiz_def pause_def latchInvariant_def)
next
  case (ResumeQuiz hr)
  with assms show ?thesis
    by (simp add: resumeQuiz_def resume_def Let_def latchInvariant_def)
next
  case (FocusLost hr)
  with assms show ?thesis
    by (simp add: pause_def latchInvariant_def)
next
  case (FocusGained hr)
  with assms show ?thesis
    by (simp add: resume_def Let_def latchInvariant_def)
qed

lemma latchInvariant_run:
  "\<forall>e\<in>set evs. \<not> isTimerComplete e \<Longrightarrow> latchInvariant g \<Longrightarrow> latchInvariant (run evs g)"
  by (induction evs arbitrary: g) (simp_all add: latchInvariant_step)

lemma latchInvariant_startQuiz: "latchInvariant (startQuiz qs hr now g)"
  by (simp add: startQuiz_def Let_def latchInvariant_nextQuestion)

lemma session_open_turn:
  assumes "\<forall>e\<in>set evs. \<not> isTimerComplete e"
    and "g = run evs (startQuiz qs hr now g0)"
    and "status g = Active" and "isActive (timer g)"
  shows "\<not> isWaitingForNextQuestion g \<and> currentQuestion g \<noteq> None"
proof -
  have "latchInvariant g"
    unfolding assms(2) using assms(1) latchInvariant_startQuiz by (rule latchInvariant_run)
  with assms(3,4) show ?thesis
    by (auto simp: latchInvariant_def isActive_def)
qed

section \<open>QuizGame: the claims\<close>

text \<open>
  C1 (\<^verbatim>\<open>submitAnswer\<close>, \<^verbatim>\<open>handleTimerComplete\<close>). Once the latch is set, a submission
  and a call of the timeout handler change nothing at all; whichever of the two appends a
  record leaves the latch set; a submission when the timer is no longer active or has no
  time remaining changes nothing; and over any sequence of submissions, ticks of the timer,
  calls of the timeout handler, pauses, resumes and changes of focus for one question (no
  advance to the next question among them) at most one record is appended, and none when
  the latch is set at the start.
\<close>

theorem one_record_per_question:
  "(isWaitingForNextQuestion g \<longrightarrow>
      submitAnswer a now g = g \<and> handleTimerComplete now g = g)
   \<and> (answerRecords (scoreTracker (submitAnswer a now g)) \<noteq> answerRecords (scoreTracker g) \<longrightarrow>
        isWaitingForNextQuestion (submitAnswer a now g))
   \<and> (answerRecords (scoreTracker (handleTimerComplete now g)) \<noteq> answerRecords (scoreTracker g) \<longrightarrow>
        isWaitingForNextQuestion (handleTimerComplete now g))
   \<and> (\<not> isActive (timer g) \<or> getTimeRemaining (timer g) \<le> 0 \<longrightarrow> submitAnswer a now g = g)
   \<and> ((\<forall>e\<in>set evs. \<not> isAdvance e) \<longrightarrow>
        length (answerRecords (scoreTracker (run evs g)))
          \<le> length (answerRecords (scoreTracker g)) + 1)
   \<and> ((\<forall>e\<in>set evs. \<not> isAdvance e) \<and> isWaitingForNextQuestion g \<longrightarrow>
        answerRecords (scoreTracker (run evs g)) = answerRecords (scoreTracker g))"
proof -
  have a: "isWaitingForNextQuestion g \<longrightarrow>
      submitAnswer a now g = g \<and> handleTimerComplete now g = g"
    by (simp add: submitAnswer_waiting handleTimerComplete_waiting)
  have b: "answerRecords (scoreTracker (submitAnswer a now g)) \<noteq> answerRecords (scoreTracker g) \<longrightarrow>
      isWaitingForNextQuestion (submitAnswer a now g)"
    using turnStep_submitAnswer [of g a now] by (auto simp: turnStep_def)
  have c: "answerRecords (scoreTracker (handleTimerComplete now g)) \<noteq> answerRecords (scoreTracker g) \<longrightarrow>
      isWaitingForNextQuestion (handleTimerComplete now g)"
    using turnStep_handleTimerComplete [of g now] by (auto simp: turnStep_def)
  have d: "\<not> isActive (timer g) \<or> getTimeRemaining (timer g) \<le> 0 \<longrightarrow> submitAnswer a now g = g"
    using submitAnswer_expired by blast
  have e: "(\<forall>e\<in>set evs. \<not> isAdvance e) \<longrightarrow>
      length (answerRecords (scoreTracker (run evs g)))
        \<le> length (answerRecords (scoreTracker g)) + 1"
  proof
    assume "\<forall>e\<in>set evs. \<not> isAdvance e"
    then have "filter isAdvance evs = []"
      by (simp add: filter_empty_conv)
    with records_run_bound [of evs g] show
      "length (answerRecords (scoreTracker (run evs g)))
        \<le> length (answerRecords (scoreTracker g)) + 1"
      by simp
  qed
  have f: "(\<forall>e\<in>set evs. \<not> isAdvance e) \<and> isWaitingForNextQuestion g \<longrightarrow>
      answerRecords (scoreTracker (run evs g)) = answerRecords (scoreTracker g)"
    using waiting_run [of g evs] by blast
  from a b c d e f show ?thesis
    by blast
qed

theorem one_record_per_question_witness:
  "isWaitingForNextQuestion (submitAnswer ''13'' 3000 sampleGame)
   \<and> submitAnswer ''13'' 3100 (submitAnswer ''13'' 3000 sampleGame)
       = submitAnswer ''13'' 3000 sampleGame
   \<and> handleTimerComplete 3200 (submitAnswer ''13'' 3000 sampleGame)
       = submitAnswer ''13'' 3000 sampleGame
   \<and> length (answerRecords (scoreTracker (run
         [Submit ''13'' 3000, Submit ''13'' 3100, TimerComplete 3200, TimerTick 10000 10000]
         sampleGame))) = 1
   \<and> length (answerRecords (scoreTracker (run
         [TimerTick 10000 10000, Submit ''13'' 10001, TimerComplete 10002] sampleGame))) = 1"
proof -
  let ?g = "submitAnswer ''13'' 3000 sampleGame"
  have w: "isWaitingForNextQuestion ?g"
    by code_simp
  have l1: "length (answerRecords (scoreTracker (run
         [Submit ''13'' 3000, Submit ''13'' 3100, TimerComplete 3200, TimerTick 10000 10000]
         sampleGame))) = 1"
    by code_simp
  have l2: "length (answerRecords (scoreTracker (run
         [TimerTick 10000 10000, Submit ''13'' 10001, TimerComplete 10002] sampleGame))) = 1"
    by code_simp
  from w l1 l2 show ?thesis
    using one_record_per_question [of ?g "''13''" 3100
        "[Submit ''13'' 3100, TimerComplete 3200, TimerTick 10000 10000]"]
      one_record_per_question [of ?g "''13''" 3200 "[]"]
    by simp
qed

text \<open>
  C4 (\<^verbatim>\<open>handleTimerComplete\<close>, \<^verbatim>\<open>recordAnswer\<close>). Whatever happens to a game, the
  records it appends to the log satisfy the invariant: a record that is timed out is not
  correct, has the empty answer and has the full time of a question, which is 10 seconds. A
  record that \<^verbatim>\<open>submitAnswer\<close> appends is not timed out; a record that the timeout
  handler appends is timed out, not correct, with the empty answer and the full time.
\<close>

theorem answer_records_invariant:
  "(\<exists>new. answerRecords (scoreTracker (run evs g)) = answerRecords (scoreTracker g) @ new
       \<and> (\<forall>r\<in>set new. timedOut r \<longrightarrow>
             \<not> isCorrect r \<and> userAnswer r = [] \<and> timeUsed r = QUESTION_TIME_LIMIT))
   \<and> (answerRecords (scoreTracker (submitAnswer a now g)) \<noteq> answerRecords (scoreTracker g) \<longrightarrow>
        (\<exists>r. answerRecords (scoreTracker (submitAnswer a now g))
                = answerRecords (scoreTracker g) @ [r]
           \<and> \<not> timedOut r))
   \<and> (answerRecords (scoreTracker (handleTimerComplete now g)) \<noteq> answerRecords (scoreTracker g) \<longrightarrow>
        (\<exists>r. answerRecords (scoreTracker (handleTimerComplete now g))
                = answerRecords (scoreTracker g) @ [r]
           \<and> timedOut r \<and> \<not> isCorrect r \<and> userAnswer r = []
           \<and> timeUsed r = QUESTION_TIME_LIMIT))
   \<and> QUESTION_TIME_LIMIT = 10"
proof -
  obtain new where new: "appended g (run evs g) new"
    using appended_run by blast
  then have "list_all recordInvariant new"
    by (simp add: appended_def)
  then have "\<forall>r\<in>set new. timedOut r \<longrightarrow>
      \<not> isCorrect r \<and> userAnswer r = [] \<and> timeUsed r = QUESTION_TIME_LIMIT"
    by (rule list_all_recordInvariant)
  with new have "answerRecords (scoreTracker (run evs g)) = answerRecords (scoreTracker g) @ new
      \<and> (\<forall>r\<in>set new. timedOut r \<longrightarrow>
            \<not> isCorrect r \<and> userAnswer r = [] \<and> timeUsed r = QUESTION_TIME_LIMIT)"
    by (simp add: appended_def)
  then have "\<exists>new. answerRecords (scoreTracker (run evs g)) = answerRecords (scoreTracker g) @ new
      \<and> (\<forall>r\<in>set new. timedOut r \<longrightarrow>
            \<not> isCorrect r \<and> userAnswer r = [] \<and> timeUsed r = QUESTION_TIME_LIMIT)"
    by (rule exI)
  then show ?thesis
    using submitAnswer_record [of a now g] handleTimerComplete_record [of now g]
    by (simp add: QUESTION_TIME_LIMIT_def)
qed

theorem answer_records_invariant_witness:
  "map timedOut (answerRecords (scoreTracker (run
       [Submit ''13'' 3000, Advance 5000 5000, TimerTick 15000 15000] sampleGame)))
     = [False, True]
   \<and> map isCorrect (answerRecords (scoreTracker (run
       [Submit ''13'' 3000, Advance 5000 5000, TimerTick 15000 15000] sampleGame)))
     = [True, False]
   \<and> map userAnswer (answerRecords (scoreTracker (run
       [Submit ''13'' 3000, Advance 5000 5000, TimerTick 15000 15000] sampleGame)))
     = [''13'', []]
   \<and> map timeUsed (answerRecords (scoreTracker (run
       [Submit ''13'' 3000, Advance 5000 5000, TimerTick 15000 15000] sampleGame)))
     = [3, 10]
   \<and> answerRecords (scoreTracker (handleTimerComplete 10000 sampleGame)) \<noteq> []
   \<and> answerRecords (scoreTracker (submitAnswer ''13'' 3000 sampleGame)) \<noteq> []"
proof -
  let ?evs = "[Submit ''13'' 3000, Advance 5000 5000, TimerTick 15000 15000]"
  have 1: "map timedOut (answerRecords (scoreTracker (run ?evs sampleGame))) = [False, True]"
    by code_simp
  have 2: "map isCorrect (answerRecords (scoreTracker (run ?evs sampleGame))) = [True, False]"
    by code_simp
  have 3: "map userAnswer (answerRecords (scoreTracker (run ?evs sampleGame))) = [''13'', []]"
    by code_simp
  have 4: "map timeUsed (answerRecords (scoreTracker (run ?evs sampleGame))) = [3, 10]"
    by code_simp
  have 5: "length (answerRecords (scoreTracker (handleTimerComplete 10000 sampleGame))) = 1"
    by code_simp
  have 6: "length (answerRecords (scoreTracker (submitAnswer ''13'' 3000 sampleGame))) = 1"
    by code_simp
  from 5 6 have 7: "answerRecords (scoreTracker (handleTimerComplete 10000 sampleGame)) \<noteq> []"
    "answerRecords (scoreTracker (submitAnswer ''13'' 3000 sampleGame)) \<noteq> []"
    by auto
  show ?thesis
    using answer_records_invariant [of ?evs sampleGame "''13''" 3000]
      answer_records_invariant [of ?evs sampleGame "''13''" 10000] 1 2 3 4 7
    by simp
qed

text \<open>
  C5 (\<^verbatim>\<open>submitAnswer\<close>, \<^verbatim>\<open>validateInput\<close>). In an active session, during the turn of
  a question (the latch is not set) and while the timer is active with time remaining, an
  answer that fails the validation for the kind the question expects is answered with the
  validation message and nothing else: \<^verbatim>\<open>submitAnswer\<close> returns normally, the game is
  as before but for the message shown, so no record is appended, the index does not move,
  no advance is scheduled and the timer is not stopped. That the latch is not set and a
  question is current follows, in a session, from the other conditions (lemma
  \<open>session_open_turn\<close>).
\<close>

theorem invalid_answer_keeps_turn:
  assumes "status g = Active"
    and "\<not> isWaitingForNextQuestion g"
    and "currentQuestion g = Some q"
    and "isActive (timer g)"
    and "0 < getTimeRemaining (timer g)"
    and "\<not> isValid (validateInput a
           (if type_q q = ''alphabet-to-number'' then ''number'' else ''letter''))"
  shows "\<exists>m. errorMessage (validateInput a
                (if type_q q = ''alphabet-to-number'' then ''number'' else ''letter'')) = Some m
           \<and> submitAnswer a now g = g\<lparr>ui := ui g @ [ShowInputError (Some m)]\<rparr>
           \<and> answerRecords (scoreTracker (submitAnswer a now g)) = answerRecords (scoreTracker g)
           \<and> currentQuestionIndex (submitAnswer a now g) = currentQuestionIndex g
           \<and> pendingAdvances (submitAnswer a now g) = pendingAdvances g
           \<and> \<not> isWaitingForNextQuestion (submitAnswer a now g)
           \<and> timer (submitAnswer a now g) = timer g
           \<and> isActive (timer (submitAnswer a now g))"
proof -
  let ?ty = "if type_q q = ''alphabet-to-number'' then ''number'' else ''letter''"
  from assms(6) obtain m where m: "errorMessage (validateInput a ?ty) = Some m"
    using validateInput_message by blast
  have "submitAnswer a now g = g\<lparr>ui := ui g @ [ShowInputError (Some m)]\<rparr>"
    using assms m by (simp add: submitAnswer_def Let_def)
  with m assms(2,4) show ?thesis
    by simp
qed

theorem invalid_answer_keeps_turn_witness:
  "status sampleGame = Active \<and> \<not> isWaitingForNextQuestion sampleGame
   \<and> currentQuestion sampleGame = Some sampleQuestion2
   \<and> isActive (timer sampleGame) \<and> 0 < getTimeRemaining (timer sampleGame)
   \<and> \<not> isValid (validateInput ''27'' ''number'')
   \<and> submitAnswer ''27'' 1000 sampleGame
       = sampleGame\<lparr>ui := ui sampleGame
           @ [ShowInputError (Some ''Please enter a number between 1 and 26'')]\<rparr>
   \<and> answerRecords (scoreTracker (submitAnswer ''27'' 1000 sampleGame)) = []
   \<and> isActive (timer (submitAnswer ''27'' 1000 sampleGame))"
proof -
  have v: "validateInput ''27'' ''number''
      = \<lparr>isValid = False, errorMessage = Some ''Please enter a number between 1 and 26''\<rparr>"
    by code_simp
  have h: "status sampleGame = Active" "\<not> isWaitingForNextQuestion sampleGame"
    "currentQuestion sampleGame = Some sampleQuestion2"
    "isActive (timer sampleGame)" "0 < getTimeRemaining (timer sampleGame)"
    "answerRecords (scoreTracker sampleGame) = []"
    by (simp_all add: sampleGame_eq isActive_def getTimeRemaining_def)
  have t: "type_q sampleQuestion2 = ''alphabet-to-number''"
    by (simp add: sampleQuestion2_def)
  show ?thesis
    using invalid_answer_keeps_turn [of sampleGame sampleQuestion2 "''27''" 1000] h v t
    by simp
qed

end
